theory Spec2Isabelle
  imports Complex_Main
begin

section \<open>Exceptions\<close>

text \<open>
  Every exception the modelled code can raise is a value. A computation that may raise
  returns \<open>error + 'a\<close>, with \<open>Inl\<close> the exception.
\<close>

datatype error =
  ZeroDivisionError | KeyError | ValueError | IndexError | AxisError
  | AttributeError | TypeError | InvalidConfiguration

definition bind_err :: "error + 'a \<Rightarrow> ('a \<Rightarrow> error + 'b) \<Rightarrow> error + 'b" where
  "bind_err r f = (case r of Inl e \<Rightarrow> Inl e | Inr v \<Rightarrow> f v)"

section \<open>The numeric backend: N-dimensional arrays\<close>

text \<open>
  An array is its shape and its entries in row-major order. Entries are real numbers:
  the model computes in exact arithmetic, rounding is not modelled.
\<close>

record ndarray =
  shape :: "nat list"
  entries :: "real list"

definition wf_array :: "ndarray \<Rightarrow> bool" where
  "wf_array a \<longleftrightarrow> length (entries a) = prod_list (shape a)"

definition row :: "nat \<Rightarrow> nat \<Rightarrow> 'a list \<Rightarrow> 'a list" where
  \<comment> \<open>the \<open>i\<close>-th block of \<open>k\<close> consecutive entries\<close>
  "row k i xs = take k (drop (i * k) xs)"

definition getitem :: "ndarray \<Rightarrow> int \<Rightarrow> error + ndarray" where
  \<comment> \<open>\<open>a[i]\<close>: indexing along the first axis, negative indices count from the end\<close>
  "getitem a i =
     (case shape a of
        [] \<Rightarrow> Inl IndexError
      | n # s \<Rightarrow>
          (let j = (if i < 0 then int n + i else i)
           in if 0 \<le> j \<and> j < int n
              then Inr \<lparr>shape = s, entries = row (prod_list s) (nat j) (entries a)\<rparr>
              else Inl IndexError))"

definition slice_to :: "ndarray \<Rightarrow> nat \<Rightarrow> error + ndarray" where
  \<comment> \<open>\<open>a[:d]\<close> along the first axis\<close>
  "slice_to a d =
     (case shape a of
        [] \<Rightarrow> Inl IndexError
      | n # s \<Rightarrow>
          Inr \<lparr>shape = min d n # s, entries = take (min d n * prod_list s) (entries a)\<rparr>)"

definition slice_from :: "ndarray \<Rightarrow> nat \<Rightarrow> error + ndarray" where
  \<comment> \<open>\<open>a[d:]\<close> along the first axis\<close>
  "slice_from a d =
     (case shape a of
        [] \<Rightarrow> Inl IndexError
      | n # s \<Rightarrow>
          Inr \<lparr>shape = (n - min d n) # s, entries = drop (min d n * prod_list s) (entries a)\<rparr>)"

definition flatten :: "ndarray \<Rightarrow> ndarray" where
  "flatten a = \<lparr>shape = [length (entries a)], entries = entries a\<rparr>"

definition stack :: "ndarray list \<Rightarrow> error + ndarray" where
  \<comment> \<open>\<open>gs.stack\<close> along a new first axis; the arrays must have one shape\<close>
  "stack xs =
     (case xs of
        [] \<Rightarrow> Inl ValueError
      | a # as \<Rightarrow>
          if list_all (\<lambda>b. shape b = shape a) as
          then Inr \<lparr>shape = length xs # shape a, entries = concat (map entries xs)\<rparr>
          else Inl ValueError)"

definition gs_array :: "ndarray list \<Rightarrow> error + ndarray" where
  \<comment> \<open>\<open>gs.array\<close> of a list of arrays: a new first axis; a ragged list is refused\<close>
  "gs_array xs =
     (case xs of
        [] \<Rightarrow> Inr \<lparr>shape = [0], entries = []\<rparr>
      | a # as \<Rightarrow>
          if list_all (\<lambda>b. shape b = shape a) as
          then Inr \<lparr>shape = length xs # shape a, entries = concat (map entries xs)\<rparr>
          else Inl ValueError)"

fun broadcast_entries :: "nat list \<Rightarrow> nat list \<Rightarrow> real list \<Rightarrow> real list" where
  "broadcast_entries (a # as) (t # ts) xs =
     (if a = t
      then concat (map (\<lambda>i. broadcast_entries as ts (row (prod_list as) i xs)) [0..<t])
      else concat (replicate t (broadcast_entries as ts xs)))"
| "broadcast_entries _ _ xs = xs"

definition pad_shape :: "nat \<Rightarrow> nat list \<Rightarrow> nat list" where
  "pad_shape n s = replicate (n - length s) 1 @ s"

definition broadcast_to :: "ndarray \<Rightarrow> nat list \<Rightarrow> error + ndarray" where
  \<comment> \<open>\<open>gs.broadcast_to\<close>: shapes are aligned from the right; an axis of the array must
      have the target's length or length 1\<close>
  "broadcast_to a tgt =
     (let src = pad_shape (length tgt) (shape a)
      in if length (shape a) \<le> length tgt \<and> list_all2 (\<lambda>x t. x = t \<or> x = 1) src tgt
         then Inr \<lparr>shape = tgt, entries = broadcast_entries src tgt (entries a)\<rparr>
         else Inl ValueError)"

fun broadcast_dims :: "nat list \<Rightarrow> nat list \<Rightarrow> nat list option" where
  "broadcast_dims [] [] = Some []"
| "broadcast_dims (a # as) (b # bs) =
     (if a = b \<or> b = 1 then map_option ((#) a) (broadcast_dims as bs)
      else if a = 1 then map_option ((#) b) (broadcast_dims as bs)
      else None)"
| "broadcast_dims _ _ = None"

definition broadcast_shapes :: "nat list \<Rightarrow> nat list \<Rightarrow> nat list option" where
  "broadcast_shapes s1 s2 =
     (let n = max (length s1) (length s2)
      in broadcast_dims (pad_shape n s1) (pad_shape n s2))"

definition add_arrays :: "ndarray \<Rightarrow> ndarray \<Rightarrow> error + ndarray" where
  \<comment> \<open>\<open>a + b\<close> with broadcasting\<close>
  "add_arrays a b =
     (case broadcast_shapes (shape a) (shape b) of
        None \<Rightarrow> Inl ValueError
      | Some s \<Rightarrow>
          bind_err (broadcast_to a s) (\<lambda>a'.
          bind_err (broadcast_to b s) (\<lambda>b'.
          Inr \<lparr>shape = s, entries = map2 (+) (entries a') (entries b')\<rparr>)))"

definition scale_array :: "ndarray \<Rightarrow> real \<Rightarrow> ndarray" where
  \<comment> \<open>\<open>a * c\<close> for a number \<open>c\<close>\<close>
  "scale_array a c = \<lparr>shape = shape a, entries = map (\<lambda>x. x * c) (entries a)\<rparr>"

definition moveaxis_0_last :: "ndarray \<Rightarrow> error + ndarray" where
  \<comment> \<open>\<open>gs.moveaxis(a, 0, -1)\<close>: the first axis becomes the last one, the others keep
      their order; entry \<open>(i, r)\<close> of the argument is entry \<open>(r, i)\<close> of the result\<close>
  "moveaxis_0_last a =
     (case shape a of
        [] \<Rightarrow> Inl AxisError
      | n # s \<Rightarrow>
          (let k = prod_list s
           in Inr \<lparr>shape = s @ [n],
                   entries = concat (map (\<lambda>r. map (\<lambda>i. entries a ! (i * k + r)) [0..<n]) [0..<k])\<rparr>))"

definition linspace :: "real \<Rightarrow> real \<Rightarrow> int \<Rightarrow> error + ndarray" where
  \<comment> \<open>\<open>gs.linspace(start, stop, num)\<close>, end point included\<close>
  "linspace start stop num =
     (if num < 0 then Inl ValueError
      else if num = 1 then Inr \<lparr>shape = [1], entries = [start]\<rparr>
      else Inr \<lparr>shape = [nat num],
                entries = map (\<lambda>i. start + real i * ((stop - start) / real_of_int (num - 1)))
                            [0..<nat num]\<rparr>)"

section \<open>Results\<close>

text \<open>
  \<open>OdeResult\<close> is a dictionary whose keys are also readable as attributes: a map from the
  key to the value. Reading an attribute that is no key raises \<open>AttributeError\<close>.
\<close>

datatype pyval = PyArray ndarray | PyInt int | PyBool bool | PyStr string | PyFloat real

type_synonym OdeResult = "string \<Rightarrow> pyval option"

definition getattr_result :: "OdeResult \<Rightarrow> string \<Rightarrow> error + pyval" where
  "getattr_result r k = (case r k of None \<Rightarrow> Inl AttributeError | Some v \<Rightarrow> Inr v)"

section \<open>The stepper registry\<close>

type_synonym force = "ndarray \<Rightarrow> real \<Rightarrow> error + ndarray"

type_synonym stepper = "force \<Rightarrow> ndarray \<Rightarrow> real \<Rightarrow> real \<Rightarrow> error + ndarray"

text \<open>
  The module \<open>geomstats.integrator\<close> is used through three things: the table
  \<open>STEP_FUNCTIONS\<close> from a stepper name to the name of a function of the module, the
  table \<open>FEVALS_PER_STEP\<close> from a stepper name to the evaluations one step costs, and the
  functions of the module, looked up by name. Both tables are keyed by stepper names,
  which are strings.
\<close>

record integrator_module =
  STEP_FUNCTIONS :: "string \<Rightarrow> string option"
  FEVALS_PER_STEP :: "string \<Rightarrow> int option"
  module_attr :: "string \<Rightarrow> stepper option"

definition check_parameter_accepted_values ::
  "string \<Rightarrow> string \<Rightarrow> (string \<Rightarrow> 'v option) \<Rightarrow> error + unit" where
  \<comment> \<open>Modelled from the spec: \<open>geomstats.errors.check_parameter_accepted_values\<close> is not
      among the sources. The spec: the stepper selection fails with
      \<open>InvalidConfiguration\<close> when a requested name is not in the registry.\<close>
  "check_parameter_accepted_values param param_name accepted_values =
     (if param \<in> dom accepted_values then Inr () else Inl InvalidConfiguration)"

definition euler_step :: stepper where
  \<comment> \<open>Modelled from the spec: the step functions of \<open>geomstats.integrator\<close> are not among
      the sources. The spec gives the Euler rule:
      \<open>state' = state + dt * force(state, t)\<close>.\<close>
  "euler_step force state time dt =
     bind_err (force state time) (\<lambda>derivatives.
     add_arrays state (scale_array derivatives dt))"

text \<open>
  Besides explicit Euler the spec's catalog holds higher-order variants, Runge-Kutta rules
  that evaluate the vector field several times per step, and leaves their staging to the
  steppers. An explicit Runge-Kutta rule is given by its tableau: for each stage the
  coefficients of the earlier stages and the node, and the weights of the stages.
  Stage \<open>i\<close> is \<open>k_i = force(state + dt * (a_i1 * k_1 + ...), t + c_i * dt)\<close>, the new state
  is \<open>state + dt * (b_1 * k_1 + ... + b_s * k_s)\<close>.
\<close>

record tableau =
  stage_rows :: "(real list \<times> real) list"
  weights :: "real list"

fun combine :: "ndarray \<Rightarrow> real \<Rightarrow> real list \<Rightarrow> ndarray list \<Rightarrow> error + ndarray" where
  \<comment> \<open>\<open>state + dt * (a_1 * k_1 + a_2 * k_2 + ...)\<close>, one term after the other\<close>
  "combine acc dt (a # as) (k # ks) =
     bind_err (add_arrays acc (scale_array k (a * dt))) (\<lambda>acc'. combine acc' dt as ks)"
| "combine acc dt _ _ = Inr acc"

fun rk_stages ::
  "force \<Rightarrow> ndarray \<Rightarrow> real \<Rightarrow> real \<Rightarrow> (real list \<times> real) list \<Rightarrow> ndarray list
     \<Rightarrow> error + ndarray list" where
  \<comment> \<open>the stages still to be evaluated, after the stages \<open>ks\<close>\<close>
  "rk_stages force state time dt [] ks = Inr ks"
| "rk_stages force state time dt ((a, c) # rows) ks =
     bind_err (combine state dt a ks) (\<lambda>arg.
     bind_err (force arg (time + c * dt)) (\<lambda>k.
     rk_stages force state time dt rows (ks @ [k])))"

definition runge_kutta_step :: "tableau \<Rightarrow> stepper" where
  \<comment> \<open>Modelled from the spec: the step functions of \<open>geomstats.integrator\<close> are not among
      the sources. The spec: step functions implement one discrete update rule;
      higher-order steppers (Runge-Kutta variants) perform several evaluations of the
      vector field per step.\<close>
  "runge_kutta_step tab force state time dt =
     bind_err (rk_stages force state time dt (stage_rows tab) []) (\<lambda>ks.
     combine state dt (weights tab) ks)"

definition euler_tableau :: tableau where
  "euler_tableau = \<lparr>stage_rows = [([], 0)], weights = [1]\<rparr>"

definition rk2_tableau :: tableau where
  \<comment> \<open>the midpoint rule\<close>
  "rk2_tableau = \<lparr>stage_rows = [([], 0), ([1 / 2], 1 / 2)], weights = [0, 1]\<rparr>"

definition rk4_tableau :: tableau where
  \<comment> \<open>the classical rule of order four\<close>
  "rk4_tableau =
     \<lparr>stage_rows = [([], 0), ([1 / 2], 1 / 2), ([0, 1 / 2], 1 / 2), ([0, 0, 1], 1)],
      weights = [1 / 6, 1 / 3, 1 / 3, 1 / 6]\<rparr>"

definition runge_kutta_registry :: "integrator_module \<Rightarrow> bool" where
  \<comment> \<open>Modelled from the spec: the registry maps a stepper name to a step function and to
      the number of evaluations of the vector field the step function performs per step;
      the step functions are explicit Euler and higher-order Runge-Kutta variants.\<close>
  "runge_kutta_registry m \<longleftrightarrow>
     (\<forall>nm fname. STEP_FUNCTIONS m nm = Some fname \<longrightarrow>
        (\<exists>tab. module_attr m fname = Some (runge_kutta_step tab)
           \<and> FEVALS_PER_STEP m nm = Some (int (length (stage_rows tab)))))"

definition gs_integrator :: integrator_module where
  \<comment> \<open>Modelled from the spec: a registry of the kind the spec describes, with explicit
      Euler and two higher-order variants, each at its number of evaluations per step.
      The spec names no stepper but Euler: the names and rules of the other two entries
      are examples, and what is proved about every registered stepper is proved for every
      registry of Runge-Kutta rules (\<open>runge_kutta_registry\<close>), not for this one only.\<close>
  "gs_integrator =
     \<lparr>STEP_FUNCTIONS =
        [''euler'' \<mapsto> ''euler_step'', ''rk2'' \<mapsto> ''rk2_step'', ''rk4'' \<mapsto> ''rk4_step''],
      FEVALS_PER_STEP = [''euler'' \<mapsto> 1, ''rk2'' \<mapsto> 2, ''rk4'' \<mapsto> 4],
      module_attr =
        [''euler_step'' \<mapsto> euler_step,
         ''rk2_step'' \<mapsto> runge_kutta_step rk2_tableau,
         ''rk4_step'' \<mapsto> runge_kutta_step rk4_tableau]\<rparr>"

section \<open>Integrators\<close>

record ODEIVPSolver =
  state_is_raveled :: bool
  tfirst :: bool
  save_result :: bool
  result' :: "OdeResult option"

record GSIntegrator = ODEIVPSolver +
  step_function :: stepper
  step_type :: "string option"
  n_steps :: int

text \<open>The value assigned to \<open>step_type\<close>: a callable or a name.\<close>

datatype step_value = Callable stepper | Name string

definition resolve_step_type ::
  "integrator_module \<Rightarrow> step_value \<Rightarrow> error + (stepper \<times> string option)" where
  \<comment> \<open>the body of the \<open>step_type\<close> setter: the pair \<open>(step_function, value)\<close> it stores\<close>
  "resolve_step_type m v =
     (case v of
        Callable f \<Rightarrow> Inr (f, None)
      | Name nm \<Rightarrow>
          bind_err (check_parameter_accepted_values nm ''step_type'' (STEP_FUNCTIONS m)) (\<lambda>_.
          case STEP_FUNCTIONS m nm of
            None \<Rightarrow> Inl KeyError
          | Some fname \<Rightarrow>
              (case module_attr m fname of
                 None \<Rightarrow> Inl AttributeError
               | Some f \<Rightarrow> Inr (f, Some nm))))"

definition set_step_type ::
  "integrator_module \<Rightarrow> step_value \<Rightarrow> GSIntegrator \<Rightarrow> error + GSIntegrator" where
  "set_step_type m v g =
     bind_err (resolve_step_type m v) (\<lambda>(f, nm).
     Inr (g\<lparr>step_function := f, step_type := nm\<rparr>))"

definition GSIntegrator_init ::
  "integrator_module \<Rightarrow> int option \<Rightarrow> step_value option \<Rightarrow> bool option
     \<Rightarrow> error + GSIntegrator" where
  \<comment> \<open>\<open>GSIntegrator(n_steps=10, step_type="euler", save_result=False)\<close>; \<open>None\<close> is an
      argument left out\<close>
  "GSIntegrator_init m n_steps_arg step_type_arg save_result_arg =
     bind_err (resolve_step_type m (case_option (Name ''euler'') id step_type_arg)) (\<lambda>(f, nm).
     Inr \<lparr>state_is_raveled = False, tfirst = False,
          save_result = case_option False id save_result_arg,
          result' = None,
          step_function = f, step_type = nm,
          n_steps = case_option 10 id n_steps_arg\<rparr>)"

definition step :: "GSIntegrator \<Rightarrow> stepper" where
  "step g force state time dt = step_function g force state time dt"

definition get_n_fevals :: "integrator_module \<Rightarrow> GSIntegrator \<Rightarrow> int \<Rightarrow> error + int" where
  \<comment> \<open>\<open>FEVALS_PER_STEP[self.step_type] * n_steps\<close>; the key is \<open>None\<close> for a callable\<close>
  "get_n_fevals m g n =
     (case step_type g of
        None \<Rightarrow> Inl KeyError
      | Some nm \<Rightarrow>
          (case FEVALS_PER_STEP m nm of
             None \<Rightarrow> Inl KeyError
           | Some n_evals_step \<Rightarrow> Inr (n_evals_step * n)))"

fun integrate_loop ::
  "GSIntegrator \<Rightarrow> force \<Rightarrow> real \<Rightarrow> nat \<Rightarrow> nat \<Rightarrow> ndarray \<Rightarrow> ndarray list
     \<Rightarrow> error + ndarray list" where
  \<comment> \<open>the \<open>for\<close> loop: \<open>k\<close> iterations are left, \<open>i\<close> is the loop variable\<close>
  "integrate_loop g force dt 0 i current_state states = Inr states"
| "integrate_loop g force dt (Suc k) i current_state states =
     bind_err (step g force current_state (real i * dt) dt) (\<lambda>next_state.
     integrate_loop g force dt k (Suc i) next_state (states @ [next_state]))"

definition GSIntegrator_integrate ::
  "integrator_module \<Rightarrow> GSIntegrator \<Rightarrow> force \<Rightarrow> ndarray \<Rightarrow> real option
     \<Rightarrow> error + (OdeResult \<times> GSIntegrator)" where
  \<comment> \<open>\<open>integrate(force, initial_state, end_time=1.0)\<close>; the integrator is returned as the
      call leaves it\<close>
  "GSIntegrator_integrate m g force initial_state end_time_arg =
     (let end_time = case_option 1 id end_time_arg
      in if n_steps g = 0 then Inl ZeroDivisionError
         else
           (let dt = end_time / real_of_int (n_steps g)
            in bind_err (integrate_loop g force dt (nat (n_steps g)) 0 initial_state
                           [initial_state]) (\<lambda>states.
               bind_err (linspace 0 end_time (n_steps g + 1)) (\<lambda>ts.
               bind_err (get_n_fevals m g (n_steps g)) (\<lambda>nfev.
               bind_err (gs_array states) (\<lambda>y.
               (let result = [''t'' \<mapsto> PyArray ts, ''y'' \<mapsto> PyArray y, ''nfev'' \<mapsto> PyInt nfev,
                              ''njev'' \<mapsto> PyInt 0, ''sucess'' \<mapsto> PyBool True]
                in Inr (result,
                        if save_result g then g\<lparr>result' := Some result\<rparr> else g))))))))"

section \<open>The adapter of the adaptive solver\<close>

type_synonym tfirst_force = "real \<Rightarrow> ndarray \<Rightarrow> error + ndarray"

text \<open>
  \<open>scipy.integrate.solve_ivp\<close> is an external library function: the model takes it as a
  parameter. It receives the vector field (time first), the time interval, the flat
  initial state, the method and the options, and returns its result or raises. The name
  of the backend module \<open>gs\<close> is a parameter too.
\<close>

record environment =
  integrator_module_of :: integrator_module
  solve_ivp ::
    "tfirst_force \<Rightarrow> real \<times> real \<Rightarrow> ndarray \<Rightarrow> string \<Rightarrow> (string \<Rightarrow> pyval option)
       \<Rightarrow> error + OdeResult"
  backend_name :: string

record SCPSolveIVP = ODEIVPSolver +
  solver_method :: string
  options :: "string \<Rightarrow> pyval option"

definition SCPSolveIVP_init ::
  "string option \<Rightarrow> bool option \<Rightarrow> (string \<Rightarrow> pyval option) \<Rightarrow> SCPSolveIVP" where
  \<comment> \<open>\<open>SCPSolveIVP(method="RK45", save_result=False, **options)\<close>\<close>
  "SCPSolveIVP_init method_arg save_result_arg opts =
     \<lparr>state_is_raveled = True, tfirst = True,
      save_result = case_option False id save_result_arg,
      result' = None,
      solver_method = case_option ''RK45'' id method_arg,
      options = opts\<rparr>"

definition endswith :: "string \<Rightarrow> string \<Rightarrow> bool" where
  "endswith s suf \<longleftrightarrow> length suf \<le> length s \<and> drop (length s - length suf) s = suf"

definition to_backend_array :: "pyval \<Rightarrow> pyval" where
  \<comment> \<open>\<open>gs.array(value)\<close> for a value that is a numpy array: the backend's array with the
      same shape and entries; the model does not tell the array types apart\<close>
  "to_backend_array v = (case v of PyArray a \<Rightarrow> PyArray a | _ \<Rightarrow> v)"

definition ode_result_to_backend_type :: "environment \<Rightarrow> OdeResult \<Rightarrow> OdeResult" where
  "ode_result_to_backend_type env ode_result =
     (if endswith (backend_name env) ''numpy'' then ode_result
      else (\<lambda>key. map_option to_backend_array (ode_result key)))"

definition SCPSolveIVP_integrate ::
  "environment \<Rightarrow> SCPSolveIVP \<Rightarrow> tfirst_force \<Rightarrow> ndarray \<Rightarrow> real option
     \<Rightarrow> error + (OdeResult \<times> SCPSolveIVP)" where
  "SCPSolveIVP_integrate env p force initial_state end_time_arg =
     (let end_time = case_option 1 id end_time_arg;
          raveled_initial_state = flatten initial_state;
          force_fn = (\<lambda>t state. force t state)
      in bind_err (solve_ivp env force_fn (0, end_time) raveled_initial_state
                     (solver_method p) (options p)) (\<lambda>raw.
         (let converted = ode_result_to_backend_type env raw
          in bind_err (getattr_result converted ''y'') (\<lambda>yv.
             bind_err (case yv of PyArray y \<Rightarrow> moveaxis_0_last y | _ \<Rightarrow> Inl AxisError) (\<lambda>y'.
             (let result = converted(''y'' \<mapsto> PyArray y')
              in Inr (result,
                      if save_result p then p\<lparr>result' := Some result\<rparr> else p)))))))"

section \<open>The exponential map by integration of the geodesic equation\<close>

record metric =
  dim :: nat
  geodesic_equation :: force

datatype integrator = GS GSIntegrator | SCP SCPSolveIVP

fun integrator_state_is_raveled :: "integrator \<Rightarrow> bool" where
  "integrator_state_is_raveled (GS g) = state_is_raveled g"
| "integrator_state_is_raveled (SCP p) = state_is_raveled p"

fun integrator_tfirst :: "integrator \<Rightarrow> bool" where
  "integrator_tfirst (GS g) = tfirst g"
| "integrator_tfirst (SCP p) = tfirst p"

text \<open>
  A vector field handed to an integrator is a callable of two arguments; the tag tells
  which argument is the state.
\<close>

datatype force_fn = State_first force | Time_first tfirst_force

record ExpODESolver =
  integrator :: integrator

definition ExpODESolver_init ::
  "environment \<Rightarrow> integrator option \<Rightarrow> error + ExpODESolver" where
  "ExpODESolver_init env integrator_arg =
     (case integrator_arg of
        None \<Rightarrow>
          bind_err (GSIntegrator_init (integrator_module_of env) None None None) (\<lambda>g.
          Inr \<lparr>integrator = GS g\<rparr>)
      | Some i \<Rightarrow> Inr \<lparr>integrator = i\<rparr>)"

definition force_raveled_state :: "metric \<Rightarrow> force" where
  "force_raveled_state mt raveled_initial_state t =
     bind_err (slice_to raveled_initial_state (dim mt)) (\<lambda>position.
     bind_err (slice_from raveled_initial_state (dim mt)) (\<lambda>velocity.
     bind_err (stack [position, velocity]) (\<lambda>state.
     bind_err (geodesic_equation mt state t) (\<lambda>eq.
     Inr (flatten eq)))))"

definition force_unraveled_state :: "metric \<Rightarrow> force" where
  "force_unraveled_state mt initial_state t = geodesic_equation mt initial_state t"

definition get_force :: "ExpODESolver \<Rightarrow> metric \<Rightarrow> force_fn" where
  "get_force solver mt =
     (let force_fn =
            (if integrator_state_is_raveled (integrator solver)
             then (\<lambda>state t. force_raveled_state mt state t)
             else (\<lambda>state t. force_unraveled_state mt state t))
      in if integrator_tfirst (integrator solver)
         then Time_first (\<lambda>t state. force_fn state t)
         else State_first force_fn)"

fun integrator_integrate ::
  "environment \<Rightarrow> integrator \<Rightarrow> force_fn \<Rightarrow> ndarray \<Rightarrow> real option
     \<Rightarrow> error + (OdeResult \<times> integrator)" where
  \<comment> \<open>\<open>self.integrator.integrate(force, initial_state, end_time)\<close>. A fixed-step
      integrator calls the vector field with the state first, the adapter hands it to a
      solver that calls it with the time first; a vector field of the other convention
      receives its arguments in the wrong places, a \<open>TypeError\<close> here\<close>
  "integrator_integrate env (GS g) (State_first f) initial_state end_time_arg =
     bind_err (GSIntegrator_integrate (integrator_module_of env) g f initial_state end_time_arg)
       (\<lambda>(result, g'). Inr (result, GS g'))"
| "integrator_integrate env (SCP p) (Time_first f) initial_state end_time_arg =
     bind_err (SCPSolveIVP_integrate env p f initial_state end_time_arg)
       (\<lambda>(result, p'). Inr (result, SCP p'))"
| "integrator_integrate env _ _ initial_state end_time_arg = Inl TypeError"

definition simplify_result :: "ExpODESolver \<Rightarrow> OdeResult \<Rightarrow> metric \<Rightarrow> error + ndarray" where
  "simplify_result solver result mt =
     bind_err (getattr_result result ''y'') (\<lambda>yv.
     case yv of
       PyArray ys \<Rightarrow>
         bind_err (getitem ys (- 1)) (\<lambda>y.
         if integrator_state_is_raveled (integrator solver)
         then slice_to y (dim mt)
         else getitem y 0)
     | _ \<Rightarrow> Inl TypeError)"

definition solve ::
  "environment \<Rightarrow> ExpODESolver \<Rightarrow> metric \<Rightarrow> ndarray \<Rightarrow> ndarray
     \<Rightarrow> error + (ndarray \<times> ExpODESolver)" where
  \<comment> \<open>\<open>ExpODESolver.solve(metric, tangent_vec, base_point)\<close>: the point, and the solver
      with its integrator as the call leaves it\<close>
  "solve env solver mt tangent_vec base_point =
     bind_err (broadcast_to base_point (shape tangent_vec)) (\<lambda>bp.
     bind_err (stack [bp, tangent_vec]) (\<lambda>initial_state.
     (let force = get_force solver mt
      in bind_err (integrator_integrate env (integrator solver) force initial_state None)
           (\<lambda>(result, integrator').
         (let solver' = solver\<lparr>integrator := integrator'\<rparr>
          in bind_err (simplify_result solver' result mt) (\<lambda>point.
             Inr (point, solver')))))))"

section \<open>Contracts of vector fields, steppers and metrics; layouts of results\<close>

definition zeros :: "nat list \<Rightarrow> ndarray" where
  "zeros sh = \<lparr>shape = sh, entries = replicate (prod_list sh) 0\<rparr>"

definition returned_attr :: "error + (OdeResult \<times> 'i) \<Rightarrow> string \<Rightarrow> error + pyval" where
  \<comment> \<open>\<open>integrate(...).key\<close>: an attribute of the result a call returned\<close>
  "returned_attr res key = bind_err res (\<lambda>(result, _). getattr_result result key)"

definition time_axis_is_last :: "pyval \<Rightarrow> pyval \<Rightarrow> bool" where
  \<comment> \<open>for the time points \<open>t\<close> and the state array \<open>y\<close> of a result: the last axis of \<open>y\<close>
      has one index per time point\<close>
  "time_axis_is_last t y =
     (case (t, y) of
        (PyArray ta, PyArray ya) \<Rightarrow> shape ya \<noteq> [] \<and> last (shape ya) = length (entries ta)
      | _ \<Rightarrow> False)"

definition time_axis_is_first :: "pyval \<Rightarrow> pyval \<Rightarrow> bool" where
  \<comment> \<open>the first axis of \<open>y\<close> has one index per time point\<close>
  "time_axis_is_first t y =
     (case (t, y) of
        (PyArray ta, PyArray ya) \<Rightarrow> shape ya \<noteq> [] \<and> hd (shape ya) = length (entries ta)
      | _ \<Rightarrow> False)"

definition step_keeps_shape :: "stepper \<Rightarrow> force \<Rightarrow> nat list \<Rightarrow> bool" where
  \<comment> \<open>the contract of a step function: from a state of shape \<open>sh\<close> it returns a state
      of shape \<open>sh\<close>\<close>
  "step_keeps_shape st force sh \<longleftrightarrow>
     (\<forall>s t dt. wf_array s \<and> shape s = sh \<longrightarrow>
        (\<exists>s'. st force s t dt = Inr s' \<and> wf_array s' \<and> shape s' = sh))"

definition force_keeps_shape :: "force \<Rightarrow> nat list \<Rightarrow> bool" where
  \<comment> \<open>the contract of a vector field: it is defined on the states of shape \<open>sh\<close> and
      the derivative has the shape of the state\<close>
  "force_keeps_shape force sh \<longleftrightarrow>
     (\<forall>s t. wf_array s \<and> shape s = sh \<longrightarrow>
        (\<exists>d. force s t = Inr d \<and> wf_array d \<and> shape d = sh))"

definition is_zero_field :: "force \<Rightarrow> bool" where
  \<comment> \<open>the vector field is identically zero: it returns the number 0 or an array of
      zeros of the state's shape\<close>
  "is_zero_field force \<longleftrightarrow>
     (\<forall>s t. force s t = Inr (zeros (shape s)) \<or> force s t = Inr (zeros []))"

definition rest_is_stationary :: "metric \<Rightarrow> nat list \<Rightarrow> bool" where
  \<comment> \<open>at a state \<open>[position, 0]\<close> with a position of shape \<open>sh\<close> the geodesic equation
      gives the zero derivative\<close>
  "rest_is_stationary mt sh \<longleftrightarrow>
     (\<forall>p t. wf_array p \<and> shape p = sh \<longrightarrow>
        geodesic_equation mt \<lparr>shape = 2 # sh, entries = entries p @ replicate (prod_list sh) 0\<rparr> t
          = Inr (zeros (2 # sh)))"

definition batch_item :: "nat \<Rightarrow> nat list \<Rightarrow> nat \<Rightarrow> ndarray \<Rightarrow> ndarray" where
  \<comment> \<open>for a batched state of shape \<open>(2, k) + sh\<close>: the state
      \<open>[position[i], velocity[i]]\<close> of the \<open>i\<close>-th item\<close>
  "batch_item k sh i S =
     \<lparr>shape = 2 # sh,
      entries = row (prod_list sh) i (entries S) @ row (prod_list sh) (k + i) (entries S)\<rparr>"

definition acts_pointwise :: "metric \<Rightarrow> nat \<Rightarrow> nat list \<Rightarrow> bool" where
  \<comment> \<open>the geodesic equation is vectorised: on a batched state of \<open>k\<close> items it returns
      a derivative of the same shape whose \<open>i\<close>-th item is the derivative at the \<open>i\<close>-th
      item of the state\<close>
  "acts_pointwise mt k sh \<longleftrightarrow>
     (\<forall>S t. wf_array S \<and> shape S = 2 # k # sh \<longrightarrow>
        (\<exists>D. geodesic_equation mt S t = Inr D \<and> wf_array D \<and> shape D = 2 # k # sh
           \<and> (\<forall>i<k. geodesic_equation mt (batch_item k sh i S) t
                        = Inr (batch_item k sh i D))))"

definition is_zero_array :: "nat list \<Rightarrow> ndarray \<Rightarrow> bool" where
  \<comment> \<open>the number 0 or the array of zeros of shape \<open>sh\<close>\<close>
  "is_zero_array sh k \<longleftrightarrow> k = zeros sh \<or> k = zeros []"

definition keeps_equilibrium ::
  "(tfirst_force \<Rightarrow> real \<times> real \<Rightarrow> ndarray \<Rightarrow> string \<Rightarrow> (string \<Rightarrow> pyval option)
      \<Rightarrow> error + OdeResult) \<Rightarrow> real \<times> real \<Rightarrow> string \<Rightarrow> (string \<Rightarrow> pyval option) \<Rightarrow> bool" where
  \<comment> \<open>a contract of the external solver at a time interval, a method and options:
      started at a flat state at which the vector field vanishes at all times, it returns
      a state array with one column per time point, at least one, and every column is
      the initial state\<close>
  "keeps_equilibrium sv ival meth opts \<longleftrightarrow>
     (\<forall>f y0.
        wf_array y0 \<and> shape y0 = [length (entries y0)]
          \<and> (\<forall>t. f t y0 = Inr (zeros (shape y0))) \<longrightarrow>
        (\<exists>raw y k. sv f ival y0 meth opts = Inr raw \<and> raw ''y'' = Some (PyArray y)
           \<and> 0 < k \<and> shape y = [length (entries y0), k]
           \<and> (\<forall>i<length (entries y0). \<forall>j<k. entries y ! (i * k + j) = entries y0 ! i)))"

section \<open>Inputs of the examples\<close>

definition zero_force :: force where
  \<comment> \<open>the vector field \<open>force(state, t) = 0\<close>\<close>
  "zero_force state time = Inr (zeros (shape state))"

definition one_step_solve_ivp ::
  "tfirst_force \<Rightarrow> real \<times> real \<Rightarrow> ndarray \<Rightarrow> string \<Rightarrow> (string \<Rightarrow> pyval option)
     \<Rightarrow> error + OdeResult" where
  \<comment> \<open>a stand-in for the external solver: one explicit Euler step over the interval, the
      result laid out as the external solver's is, one column per time point\<close>
  "one_step_solve_ivp f ival y0 meth opts =
     bind_err (f (fst ival) y0) (\<lambda>d.
     bind_err (add_arrays y0 (scale_array d (snd ival - fst ival))) (\<lambda>y1.
     bind_err (stack [y0, y1]) (\<lambda>rows.
     bind_err (moveaxis_0_last rows) (\<lambda>y.
     Inr [''t'' \<mapsto> PyArray \<lparr>shape = [2], entries = [fst ival, snd ival]\<rparr>,
          ''y'' \<mapsto> PyArray y, ''nfev'' \<mapsto> PyInt 1, ''njev'' \<mapsto> PyInt 0,
          ''success'' \<mapsto> PyBool True]))))"

definition example_env :: environment where
  "example_env =
     \<lparr>integrator_module_of = gs_integrator, solve_ivp = one_step_solve_ivp,
      backend_name = ''geomstats._backend.numpy''\<rparr>"

definition example_state :: ndarray where
  "example_state = \<lparr>shape = [2], entries = [1, 2]\<rparr>"

definition example_integrator :: GSIntegrator where
  \<comment> \<open>what \<open>GSIntegrator(n_steps=2)\<close> constructs with the registry \<open>gs_integrator\<close>\<close>
  "example_integrator =
     \<lparr>state_is_raveled = False, tfirst = False, save_result = False, result' = None,
      step_function = euler_step, step_type = Some ''euler'', n_steps = 2\<rparr>"

definition example_adapter :: SCPSolveIVP where
  \<comment> \<open>what \<open>SCPSolveIVP()\<close> constructs\<close>
  "example_adapter = SCPSolveIVP_init None None Map.empty"

definition tfirst_zero_force :: tfirst_force where
  "tfirst_zero_force t state = Inr (zeros (shape state))"

definition tfirst_unit_force :: tfirst_force where
  \<comment> \<open>the vector field \<open>force(t, state) = 1\<close> in every component\<close>
  "tfirst_unit_force t state =
     Inr \<lparr>shape = shape state, entries = map (\<lambda>x. 1) (entries state)\<rparr>"

definition example_state3 :: ndarray where
  "example_state3 = \<lparr>shape = [3], entries = [1, 2, 3]\<rparr>"

definition flat_metric :: "nat \<Rightarrow> metric" where
  \<comment> \<open>a metric for the examples, with the geodesic equation of flat space:
      \<open>position, velocity = state\<close>, the derivative is \<open>stack([velocity, 0])\<close>\<close>
  "flat_metric n =
     \<lparr>dim = n,
      geodesic_equation = (\<lambda>state t.
        bind_err (getitem state 0) (\<lambda>position.
        bind_err (getitem state 1) (\<lambda>velocity.
        stack [velocity, zeros (shape velocity)])))\<rparr>"

definition example_solver :: ExpODESolver where
  "example_solver = \<lparr>integrator = GS example_integrator\<rparr>"

definition example_base_point :: ndarray where
  "example_base_point = \<lparr>shape = [2], entries = [1, 2]\<rparr>"

definition example_tangent_vec :: ndarray where
  "example_tangent_vec = \<lparr>shape = [2], entries = [3, 4]\<rparr>"

definition adapter_solver :: ExpODESolver where
  \<comment> \<open>\<open>ExpODESolver(integrator=SCPSolveIVP())\<close>\<close>
  "adapter_solver = \<lparr>integrator = SCP example_adapter\<rparr>"

definition example_tangent_vecs :: ndarray where
  "example_tangent_vecs = \<lparr>shape = [2, 2], entries = [3, 4, 5, 6]\<rparr>"

definition example_rk4_integrator :: GSIntegrator where
  \<comment> \<open>what \<open>GSIntegrator(n_steps=2, step_type="rk4")\<close> constructs with the registry
      \<open>gs_integrator\<close>\<close>
  "example_rk4_integrator =
     example_integrator\<lparr>step_function := runge_kutta_step rk4_tableau,
                         step_type := Some ''rk4''\<rparr>"

definition example_rk4_solver :: ExpODESolver where
  "example_rk4_solver = \<lparr>integrator = GS example_rk4_integrator\<rparr>"

definition heun_step :: stepper where
  \<comment> \<open>a step function written by the caller, Heun's rule:
      \<open>state' = state + dt / 2 * (k1 + k2)\<close> with \<open>k1 = force(state, t)\<close> and
      \<open>k2 = force(state + dt * k1, t + dt)\<close>\<close>
  "heun_step force state time dt =
     bind_err (force state time) (\<lambda>k1.
     bind_err (add_arrays state (scale_array k1 dt)) (\<lambda>predicted.
     bind_err (force predicted (time + dt)) (\<lambda>k2.
     bind_err (add_arrays k1 k2) (\<lambda>slope.
     add_arrays state (scale_array slope (dt / 2))))))"

definition example_custom_integrator :: GSIntegrator where
  \<comment> \<open>what \<open>GSIntegrator(n_steps=3, step_type=heun_step)\<close> constructs\<close>
  "example_custom_integrator =
     \<lparr>state_is_raveled = False, tfirst = False, save_result = False, result' = None,
      step_function = heun_step, step_type = None, n_steps = 3\<rparr>"

section \<open>Properties\<close>

lemmas model_defs =
  bind_err_def GSIntegrator_init_def resolve_step_type_def set_step_type_def
  check_parameter_accepted_values_def gs_integrator_def GSIntegrator_integrate_def
  step_def euler_step_def add_arrays_def broadcast_shapes_def pad_shape_def broadcast_to_def
  scale_array_def linspace_def get_n_fevals_def gs_array_def row_def getattr_result_def
  zeros_def zero_force_def example_state_def example_integrator_def example_env_def
  one_step_solve_ivp_def stack_def moveaxis_0_last_def flatten_def SCPSolveIVP_init_def
  SCPSolveIVP_integrate_def ode_result_to_backend_type_def endswith_def getitem_def
  slice_to_def slice_from_def

lemma example_integrator_init:
  "GSIntegrator_init gs_integrator (Some 2) None None = Inr example_integrator"
  by (simp add: model_defs)

lemma callable_stepper_never_returns:
  assumes "step_type g = None"
  shows "isl (GSIntegrator_integrate m g force s0 T)"
  using assms
  by (auto simp: GSIntegrator_integrate_def get_n_fevals_def bind_err_def Let_def
      split: sum.splits)

lemma fixed_step_result_keys:
  assumes "GSIntegrator_integrate m g force s0 T = Inr (r, g')"
  shows "r ''njev'' = Some (PyInt 0) \<and> r ''success'' = None
         \<and> r ''sucess'' = Some (PyBool True)"
  using assms
  by (auto simp: GSIntegrator_integrate_def bind_err_def Let_def split: sum.splits if_splits)

text \<open>
  C2 (fails on the code). A callable assigned to \<open>step_type\<close> is stored with the stepper
  name \<open>None\<close>; \<open>integrate\<close> then looks \<open>None\<close> up in \<open>FEVALS_PER_STEP\<close>, whose keys are
  stepper names, and raises \<open>KeyError\<close> after the loop instead of returning a result with
  an evaluation count of zero.
\<close>

theorem custom_stepper_integrate_raises:
  "set_step_type gs_integrator (Callable euler_step) example_integrator
     = Inr (example_integrator\<lparr>step_type := None\<rparr>)
   \<and> GSIntegrator_integrate gs_integrator (example_integrator\<lparr>step_type := None\<rparr>)
        zero_force example_state None = Inl KeyError"
  by (simp add: model_defs numeral_2_eq_2)

text \<open>
  C5 (fails on the code). The result of the fixed-step integrator has the Jacobian count
  0, but its flag is stored under the key \<open>sucess\<close>: the result has no key \<open>success\<close>, and
  reading it raises \<open>AttributeError\<close>.
\<close>

theorem fixed_step_result_has_no_success_key:
  "\<exists>r. GSIntegrator_integrate gs_integrator example_integrator zero_force example_state None
          = Inr (r, example_integrator)
       \<and> r ''njev'' = Some (PyInt 0)
       \<and> r ''success'' = None
       \<and> r ''sucess'' = Some (PyBool True)
       \<and> getattr_result r ''success'' = Inl AttributeError"
  by (simp add: model_defs numeral_2_eq_2)

text \<open>
  C6. A string that is not a key of \<open>STEP_FUNCTIONS\<close> makes both the constructor and a
  later assignment to \<open>step_type\<close> raise \<open>InvalidConfiguration\<close>: no integrator is
  constructed, respectively the assignment does not take place.
\<close>

theorem unregistered_step_type_raises:
  assumes "STEP_FUNCTIONS m nm = None"
  shows "GSIntegrator_init m n_arg (Some (Name nm)) save_arg = Inl InvalidConfiguration
         \<and> set_step_type m (Name nm) g = Inl InvalidConfiguration"
  using assms
  by (simp add: GSIntegrator_init_def set_step_type_def resolve_step_type_def
        check_parameter_accepted_values_def bind_err_def dom_def)

theorem unregistered_step_type_raises_witness:
  "STEP_FUNCTIONS gs_integrator ''rk45'' = None
   \<and> GSIntegrator_init gs_integrator (Some 5) (Some (Name ''rk45'')) None
       = Inl InvalidConfiguration
   \<and> set_step_type gs_integrator (Name ''rk45'') example_integrator = Inl InvalidConfiguration"
proof -
  have h: "STEP_FUNCTIONS gs_integrator ''rk45'' = None"
    by (simp add: gs_integrator_def)
  show ?thesis
    using h unregistered_step_type_raises [OF h, of "Some 5" None example_integrator]
    by simp
qed

lemma example_integrate_returns:
  "\<exists>r. GSIntegrator_integrate gs_integrator example_integrator zero_force example_state None
          = Inr (r, example_integrator)"
  by (simp add: model_defs numeral_2_eq_2)

lemma example_adapter_integrate_returns:
  "\<exists>r. SCPSolveIVP_integrate example_env example_adapter tfirst_zero_force example_state None
          = Inr (r, example_adapter)"
  by (simp add: model_defs example_adapter_def tfirst_zero_force_def numeral_2_eq_2)

text \<open>
  C10. Both constructors take \<open>save_result = False\<close> when the argument is left out and
  set the cached result to \<open>None\<close>. A call of \<open>integrate\<close> on an integrator whose
  \<open>save_result\<close> is false returns the integrator as it was: no attribute is assigned, the
  cached result included.
\<close>

theorem save_result_off_leaves_integrator:
  assumes "GSIntegrator_init m n_arg st_arg sv_arg = Inr g0"
    and "\<not> save_result g"
    and "GSIntegrator_integrate m g force s0 T = Inr (r, g')"
    and "\<not> save_result p"
    and "SCPSolveIVP_integrate env p f s1 T1 = Inr (r1, p')"
  shows "save_result g0 = (case sv_arg of None \<Rightarrow> False | Some b \<Rightarrow> b)
       \<and> result' g0 = None
       \<and> save_result (SCPSolveIVP_init me sv_arg1 opts)
           = (case sv_arg1 of None \<Rightarrow> False | Some b \<Rightarrow> b)
       \<and> result' (SCPSolveIVP_init me sv_arg1 opts) = None
       \<and> g' = g \<and> p' = p"
proof -
  have a: "save_result g0 = (case sv_arg of None \<Rightarrow> False | Some b \<Rightarrow> b) \<and> result' g0 = None"
    using assms(1)
    by (auto simp: GSIntegrator_init_def bind_err_def split: sum.splits option.splits prod.splits)
  have b: "g' = g"
    using assms(2,3)
    by (auto simp: GSIntegrator_integrate_def bind_err_def Let_def split: sum.splits if_splits)
  have c: "p' = p"
    using assms(4,5)
    by (auto simp: SCPSolveIVP_integrate_def bind_err_def Let_def split: sum.splits if_splits)
  show ?thesis using a b c
    by (simp add: SCPSolveIVP_init_def split: option.splits)
qed

theorem save_result_off_leaves_integrator_witness:
  "save_result example_integrator = False \<and> result' example_integrator = None
   \<and> save_result example_adapter = False \<and> result' example_adapter = None
   \<and> map_sum id snd (GSIntegrator_integrate gs_integrator example_integrator zero_force
         example_state None) = Inr example_integrator
   \<and> map_sum id snd (SCPSolveIVP_integrate example_env example_adapter tfirst_zero_force
         example_state None) = Inr example_adapter"
proof -
  have h1: "GSIntegrator_init gs_integrator (Some 2) None None = Inr example_integrator"
    by (rule example_integrator_init)
  have h2: "\<not> save_result example_integrator"
    by (simp add: example_integrator_def)
  obtain r where h3:
    "GSIntegrator_integrate gs_integrator example_integrator zero_force example_state None
       = Inr (r, example_integrator)"
    using example_integrate_returns by blast
  have h4: "\<not> save_result example_adapter"
    by (simp add: example_adapter_def SCPSolveIVP_init_def)
  obtain r1 where h5:
    "SCPSolveIVP_integrate example_env example_adapter tfirst_zero_force example_state None
       = Inr (r1, example_adapter)"
    using example_adapter_integrate_returns by blast
  show ?thesis
    using save_result_off_leaves_integrator [OF h1 h2 h3 h4 h5, of None None Map.empty] h3 h5
    by (simp add: example_adapter_def)
qed

subsection \<open>Blocks of a concatenation\<close>

lemma row_concat:
  "\<forall>x \<in> set xss. length x = n \<Longrightarrow> j < length xss \<Longrightarrow> row n j (concat xss) = xss ! j"
proof (induction xss arbitrary: j)
  case Nil
  then show ?case by simp
next
  case (Cons x xss)
  show ?case
  proof (cases j)
    case 0
    then show ?thesis using Cons.prems by (simp add: row_def)
  next
    case (Suc i)
    have "row n i (concat xss) = xss ! i"
      using Cons.IH [of i] Cons.prems Suc by simp
    then show ?thesis using Cons.prems Suc by (simp add: row_def)
  qed
qed

subsection \<open>The layout of the adapter's result\<close>

text \<open>
  C3 (as stated, fails on the code). The external solver's state array has one row per
  state component and one column per time point. \<open>gs.moveaxis(y, 0, -1)\<close> moves the
  component axis to the end: in the returned array the time axis is the first axis, not
  the last. For a state of three components and two time points the returned array has
  shape \<open>(2, 3)\<close>.
\<close>

theorem adapter_time_axis_last_counterexample:
  "returned_attr (SCPSolveIVP_integrate example_env example_adapter tfirst_unit_force
       example_state3 None) ''t''
     = Inr (PyArray \<lparr>shape = [2], entries = [0, 1]\<rparr>)
   \<and> returned_attr (SCPSolveIVP_integrate example_env example_adapter tfirst_unit_force
       example_state3 None) ''y''
     = Inr (PyArray \<lparr>shape = [2, 3], entries = [1, 2, 3, 2, 3, 4]\<rparr>)
   \<and> \<not> time_axis_is_last (PyArray \<lparr>shape = [2], entries = [0, 1]\<rparr>)
         (PyArray \<lparr>shape = [2, 3], entries = [1, 2, 3, 2, 3, 4]\<rparr>)"
  by (simp add: model_defs example_adapter_def tfirst_unit_force_def example_state3_def
      returned_attr_def time_axis_is_last_def numeral_2_eq_2 numeral_3_eq_3)

text \<open>
  C3 (amended). When the external solver returns time points \<open>t\<close> and a state array \<open>y\<close>
  of shape \<open>(n, k)\<close>, one column per time point, the adapter returns the same time points
  and the transposed array of shape \<open>(k, n)\<close>: time is the first axis, and indexing the
  first axis by \<open>j\<close> gives the state at the \<open>j\<close>-th time point, which is column \<open>j\<close> of \<open>y\<close>.
\<close>

theorem adapter_result_time_axis_first:
  assumes "solve_ivp env (\<lambda>t state. f t state) (0, case_option 1 id T) (flatten s0)
             (solver_method p) (options p) = Inr raw"
    and "raw ''t'' = Some (PyArray ts)"
    and "raw ''y'' = Some (PyArray y)"
    and "shape y = [n, k]"
    and "length (entries ts) = k"
    and "j < k"
  shows "\<exists>r p' y'. SCPSolveIVP_integrate env p f s0 T = Inr (r, p')
           \<and> r ''t'' = Some (PyArray ts)
           \<and> r ''y'' = Some (PyArray y')
           \<and> shape y' = [k, n]
           \<and> time_axis_is_first (PyArray ts) (PyArray y')
           \<and> getitem y' (int j)
               = Inr \<lparr>shape = [n], entries = map (\<lambda>i. entries y ! (i * k + j)) [0..<n]\<rparr>"
proof -
  let ?rows = "map (\<lambda>r. map (\<lambda>i. entries y ! (i * k + r)) [0..<n]) [0..<k]"
  let ?y' = "\<lparr>shape = [k, n], entries = concat ?rows\<rparr>"
  have conv_y: "ode_result_to_backend_type env raw ''y'' = Some (PyArray y)"
    using assms(3) by (simp add: ode_result_to_backend_type_def to_backend_array_def)
  have conv_t: "ode_result_to_backend_type env raw ''t'' = Some (PyArray ts)"
    using assms(2) by (simp add: ode_result_to_backend_type_def to_backend_array_def)
  have mv: "moveaxis_0_last y = Inr ?y'"
    using assms(4) by (simp add: moveaxis_0_last_def)
  have r: "row n j (concat ?rows) = ?rows ! j"
    using assms(6) by (intro row_concat) auto
  have g: "getitem ?y' (int j)
             = Inr \<lparr>shape = [n], entries = map (\<lambda>i. entries y ! (i * k + j)) [0..<n]\<rparr>"
    using assms(6) r by (simp add: getitem_def)
  have tf: "time_axis_is_first (PyArray ts) (PyArray ?y')"
    using assms(5) by (simp add: time_axis_is_first_def)
  show ?thesis
    using assms(1) conv_y conv_t mv g tf
    by (simp add: SCPSolveIVP_integrate_def bind_err_def getattr_result_def Let_def)
qed

theorem adapter_result_time_axis_first_witness:
  "\<exists>r p' y'. SCPSolveIVP_integrate example_env example_adapter tfirst_unit_force
                 example_state3 None = Inr (r, p')
      \<and> r ''t'' = Some (PyArray \<lparr>shape = [2], entries = [0, 1]\<rparr>)
      \<and> r ''y'' = Some (PyArray y')
      \<and> shape y' = [2, 3]
      \<and> getitem y' 1 = Inr \<lparr>shape = [3], entries = [2, 3, 4]\<rparr>"
proof -
  let ?ts = "\<lparr>shape = [2], entries = [0, 1]\<rparr>"
  let ?y = "\<lparr>shape = [3, 2], entries = [1, 2, 2, 3, 3, 4]\<rparr>"
  let ?raw = "[''t'' \<mapsto> PyArray ?ts, ''y'' \<mapsto> PyArray ?y, ''nfev'' \<mapsto> PyInt 1,
               ''njev'' \<mapsto> PyInt 0, ''success'' \<mapsto> PyBool True]"
  have h1: "solve_ivp example_env (\<lambda>t state. tfirst_unit_force t state)
              (0, case_option 1 id None) (flatten example_state3)
              (solver_method example_adapter) (options example_adapter) = Inr ?raw"
    by (simp add: model_defs example_adapter_def tfirst_unit_force_def example_state3_def
        numeral_2_eq_2 numeral_3_eq_3)
  have h2: "?raw ''t'' = Some (PyArray ?ts)" by simp
  have h3: "?raw ''y'' = Some (PyArray ?y)" by simp
  have h4: "shape ?y = [3, 2]" by simp
  have h5: "length (entries ?ts) = 2" by simp
  have h6: "(1::nat) < 2" by simp
  show ?thesis
    using adapter_result_time_axis_first [OF h1 h2 h3 h4 h5 h6]
    by (simp add: numeral_3_eq_3) blast
qed

subsection \<open>Arrays of one shape\<close>

lemma length_row: "(Suc i) * k \<le> length xs \<Longrightarrow> length (row k i xs) = k"
  by (simp add: row_def)

lemma concat_rows: "length xs = t * k \<Longrightarrow> concat (map (\<lambda>i. row k i xs) [0..<t]) = xs"
proof (induction t arbitrary: xs)
  case 0
  then show ?case by simp
next
  case (Suc t)
  have len: "length (take (t * k) xs) = t * k" using Suc.prems by simp
  have eq: "map (\<lambda>i. row k i xs) [0..<t] = map (\<lambda>i. row k i (take (t * k) xs)) [0..<t]"
  proof (rule map_cong[OF refl])
    fix i assume "i \<in> set [0..<t]"
    then have "i < t" by simp
    then have "i * k + k \<le> t * k"
      by (metis Suc_leI mult_Suc mult_le_mono1 add.commute)
    then show "row k i xs = row k i (take (t * k) xs)"
      by (simp add: row_def take_drop min_def)
  qed
  have "concat (map (\<lambda>i. row k i xs) [0..<Suc t]) = concat (map (\<lambda>i. row k i xs) [0..<t]) @ row k t xs"
    by simp
  also have "\<dots> = take (t * k) xs @ row k t xs"
    using Suc.IH[OF len] by (simp only: eq)
  also have "\<dots> = xs"
    using Suc.prems by (simp add: row_def)
  finally show ?case .
qed

lemma broadcast_entries_same:
  "length xs = prod_list s \<Longrightarrow> broadcast_entries s s xs = xs"
proof (induction s arbitrary: xs)
  case Nil
  then show ?case by simp
next
  case (Cons a as)
  have "map (\<lambda>i. broadcast_entries as as (row (prod_list as) i xs)) [0..<a]
        = map (\<lambda>i. row (prod_list as) i xs) [0..<a]"
  proof (rule map_cong[OF refl])
    fix i assume "i \<in> set [0..<a]"
    then have "Suc i \<le> a" by simp
    then have "Suc i * prod_list as \<le> a * prod_list as"
      by (rule mult_le_mono1)
    then have "length (row (prod_list as) i xs) = prod_list as"
      using Cons.prems by (intro length_row) simp
    then show "broadcast_entries as as (row (prod_list as) i xs) = row (prod_list as) i xs"
      by (rule Cons.IH)
  qed
  then have "concat (map (\<lambda>i. broadcast_entries as as (row (prod_list as) i xs)) [0..<a])
             = concat (map (\<lambda>i. row (prod_list as) i xs) [0..<a])"
    by (rule arg_cong)
  also have "\<dots> = xs"
    using Cons.prems by (intro concat_rows) simp
  finally show ?case by simp
qed

lemma broadcast_to_same: "wf_array a \<Longrightarrow> broadcast_to a (shape a) = Inr a"
  by (simp add: broadcast_to_def pad_shape_def wf_array_def broadcast_entries_same
      list_all2_same)

lemma broadcast_dims_same: "broadcast_dims s s = Some s"
  by (induction s) auto

lemma add_arrays_same_shape:
  "wf_array a \<Longrightarrow> wf_array b \<Longrightarrow> shape a = shape b \<Longrightarrow>
   add_arrays a b = Inr \<lparr>shape = shape a, entries = map2 (+) (entries a) (entries b)\<rparr>"
  using broadcast_to_same[of a] broadcast_to_same[of b]
  by (simp add: add_arrays_def broadcast_shapes_def pad_shape_def broadcast_dims_same bind_err_def)

lemma wf_scale_array: "wf_array (scale_array d c) = wf_array d"
  by (simp add: wf_array_def scale_array_def)

lemma euler_step_same_shape:
  assumes "force s t = Inr d" "wf_array s" "wf_array d" "shape d = shape s"
  shows "euler_step force s t dt
         = Inr \<lparr>shape = shape s, entries = map2 (\<lambda>x v. x + v * dt) (entries s) (entries d)\<rparr>"
proof -
  have "add_arrays s (scale_array d dt)
        = Inr \<lparr>shape = shape s, entries = map2 (+) (entries s) (entries (scale_array d dt))\<rparr>"
    using assms by (intro add_arrays_same_shape) (simp_all add: wf_scale_array, simp add: scale_array_def)
  moreover have "map2 (+) (entries s) (entries (scale_array d dt)) = map2 (\<lambda>x v. x + v * dt) (entries s) (entries d)"
    by (simp add: scale_array_def zip_map2 split_def)
  ultimately show ?thesis using assms(1) by (simp add: euler_step_def bind_err_def)
qed

lemma gs_array_same_shape:
  "xs \<noteq> [] \<Longrightarrow> \<forall>x \<in> set xs. shape x = sh \<Longrightarrow>
   gs_array xs = Inr \<lparr>shape = length xs # sh, entries = concat (map entries xs)\<rparr>"
  by (cases xs) (auto simp: gs_array_def list_all_iff)

lemma getitem_stacked:
  assumes "\<forall>x \<in> set xs. shape x = sh \<and> wf_array x" "i < length xs"
  shows "getitem \<lparr>shape = length xs # sh, entries = concat (map entries xs)\<rparr> (int i) = Inr (xs ! i)"
proof -
  have "row (prod_list sh) i (concat (map entries xs)) = map entries xs ! i"
    using assms by (intro row_concat) (auto simp: wf_array_def)
  then show ?thesis using assms by (simp add: getitem_def)
qed

lemma getitem_stacked_last:
  assumes "\<forall>x \<in> set xs. shape x = sh \<and> wf_array x" "xs \<noteq> []"
  shows "getitem \<lparr>shape = length xs # sh, entries = concat (map entries xs)\<rparr> (- 1) = Inr (last xs)"
proof -
  have "row (prod_list sh) (length xs - 1) (concat (map entries xs)) = map entries xs ! (length xs - 1)"
    using assms by (intro row_concat) (auto simp: wf_array_def)
  moreover have "nat (int (length xs) - 1) = length xs - 1" by simp
  ultimately show ?thesis using assms by (simp add: getitem_def last_conv_nth)
qed


subsection \<open>The loop of the fixed-step integrator\<close>

lemma euler_step_keeps_shape:
  assumes "force_keeps_shape force sh"
  shows "step_keeps_shape euler_step force sh"
  unfolding step_keeps_shape_def
proof (intro allI impI)
  fix s t dt assume a: "wf_array s \<and> shape s = sh"
  then obtain d where d: "force s t = Inr d" "wf_array d" "shape d = sh"
    using assms unfolding force_keeps_shape_def by blast
  have "euler_step force s t dt
         = Inr \<lparr>shape = shape s, entries = map2 (\<lambda>x v. x + v * dt) (entries s) (entries d)\<rparr>"
    using a d by (intro euler_step_same_shape) simp_all
  moreover have "wf_array \<lparr>shape = shape s, entries = map2 (\<lambda>x v. x + v * dt) (entries s) (entries d)\<rparr>"
    using a d by (simp add: wf_array_def)
  ultimately show "\<exists>s'. euler_step force s t dt = Inr s' \<and> wf_array s' \<and> shape s' = sh"
    using a by simp
qed

lemma integrate_loop_shapes:
  assumes "step_keeps_shape (step_function g) force sh"
    and "wf_array cur" "shape cur = sh"
  shows "\<exists>new. integrate_loop g force dt k i cur states = Inr (states @ new)
           \<and> length new = k \<and> (\<forall>x \<in> set new. shape x = sh \<and> wf_array x)"
  using assms(2,3)
proof (induction k arbitrary: i cur states)
  case 0
  then show ?case by simp
next
  case (Suc k)
  obtain nxt where n: "step_function g force cur (real i * dt) dt = Inr nxt"
      "wf_array nxt" "shape nxt = sh"
    using assms(1) Suc.prems unfolding step_keeps_shape_def by blast
  obtain new where new: "integrate_loop g force dt k (Suc i) nxt (states @ [nxt]) = Inr ((states @ [nxt]) @ new)"
      "length new = k" "\<forall>x \<in> set new. shape x = sh \<and> wf_array x"
    using Suc.IH[OF n(2,3)] by blast
  have "integrate_loop g force dt (Suc k) i cur states = Inr (states @ (nxt # new))"
    using n(1) new(1) by (simp add: step_def bind_err_def)
  then show ?case using new(2,3) n(2,3)
    by (intro exI[of _ "nxt # new"]) simp
qed

lemma length_concat_entries:
  "\<forall>x \<in> set xs. shape x = sh \<and> wf_array x \<Longrightarrow>
   length (concat (map entries xs)) = length xs * prod_list sh"
  by (induction xs) (auto simp: wf_array_def)

text \<open>
  With a positive \<open>n_steps\<close>, a stepper registered by name and a step function that
  keeps the shape of the state, \<open>integrate\<close> returns a result whose time points are the
  \<open>n_steps + 1\<close> points \<open>i * (end_time / n_steps)\<close>, from 0 to \<open>end_time\<close>, and whose
  state array has shape \<open>(n_steps + 1, ...shape of a state)\<close>, time being the first axis
  and the first entry the initial state.
\<close>

lemma named_stepper_time_grid_and_states:
  assumes "0 < n_steps g"
    and "step_type g = Some nm"
    and "FEVALS_PER_STEP m nm = Some c"
    and "wf_array s0"
    and "step_keeps_shape (step_function g) force (shape s0)"
  shows "\<exists>r g' ts y.
           GSIntegrator_integrate m g force s0 T = Inr (r, g')
         \<and> r ''t'' = Some (PyArray ts)
         \<and> shape ts = [nat (n_steps g) + 1]
         \<and> entries ts = map (\<lambda>i. real i * (case_option 1 id T / real_of_int (n_steps g)))
                           [0..<nat (n_steps g) + 1]
         \<and> entries ts ! 0 = 0
         \<and> entries ts ! nat (n_steps g) = case_option 1 id T
         \<and> r ''y'' = Some (PyArray y)
         \<and> shape y = (nat (n_steps g) + 1) # shape s0
         \<and> wf_array y
         \<and> getitem y 0 = Inr s0"
proof -
  define n where "n = nat (n_steps g)"
  define E where "E = case_option 1 id T"
  have npos: "0 < n" "n_steps g = int n" using assms(1) by (simp_all add: n_def)
  obtain new where new:
      "integrate_loop g force (E / real_of_int (n_steps g)) n 0 s0 [s0] = Inr ([s0] @ new)"
      "length new = n" "\<forall>x \<in> set new. shape x = shape s0 \<and> wf_array x"
    using integrate_loop_shapes[OF assms(5) assms(4) refl] by blast
  let ?states = "s0 # new"
  let ?ts = "\<lparr>shape = [Suc n], entries = map (\<lambda>i. real i * (E / real n)) [0..<Suc n]\<rparr>"
  let ?y = "\<lparr>shape = Suc n # shape s0, entries = concat (map entries ?states)\<rparr>"
  have all: "\<forall>x \<in> set ?states. shape x = shape s0 \<and> wf_array x"
    using new(3) assms(4) by simp
  have lin: "linspace 0 E (n_steps g + 1) = Inr ?ts"
    using npos by (simp add: linspace_def nat_add_distrib)
  have fev: "get_n_fevals m g (n_steps g) = Inr (c * n_steps g)"
    using assms(2,3) by (simp add: get_n_fevals_def)
  have len: "length ?states = Suc n" using new(2) by simp
  have ne: "?states \<noteq> []" by simp
  have sh: "\<forall>x \<in> set ?states. shape x = shape s0" using all by blast
  have arr: "gs_array ?states = Inr ?y"
    using gs_array_same_shape[OF ne sh] by (simp only: len)
  have wf: "wf_array ?y"
    using length_concat_entries[OF all] by (simp only: len wf_array_def ndarray.simps prod_list.Cons)
  have zero_lt: "0 < length ?states" by simp
  have "getitem \<lparr>shape = length ?states # shape s0, entries = concat (map entries ?states)\<rparr> (int 0)
          = Inr (?states ! 0)"
    using all zero_lt by (rule getitem_stacked)
  then have first: "getitem ?y 0 = Inr s0"
    by (simp only: len nth_Cons_0 of_nat_0)
  have last_t: "entries ?ts ! n = E"
  proof -
    have "map (\<lambda>i. real i * (E / real n)) [0..<Suc n] ! n = real ([0..<Suc n] ! n) * (E / real n)"
      by (rule nth_map) simp
    also have "[0..<Suc n] ! n = n"
      using nth_upt[of 0 n "Suc n"] by simp
    finally show ?thesis using npos by (simp del: upt_Suc)
  qed
  have first_t: "entries ?ts ! 0 = 0"
  proof -
    have "map (\<lambda>i. real i * (E / real n)) [0..<Suc n] ! 0 = real ([0..<Suc n] ! 0) * (E / real n)"
      by (rule nth_map) simp
    also have "[0..<Suc n] ! 0 = 0"
      using nth_upt[of 0 0 "Suc n"] by simp
    finally show ?thesis by (simp del: upt_Suc)
  qed
  let ?r = "[''t'' \<mapsto> PyArray ?ts, ''y'' \<mapsto> PyArray ?y, ''nfev'' \<mapsto> PyInt (c * n_steps g),
             ''njev'' \<mapsto> PyInt 0, ''sucess'' \<mapsto> PyBool True]"
  have loop: "integrate_loop g force (E / real_of_int (n_steps g)) (nat (n_steps g)) 0 s0 [s0]
                = Inr ?states"
    using new(1) by (simp add: n_def)
  have ns: "n_steps g \<noteq> 0" using assms(1) by simp
  have run: "GSIntegrator_integrate m g force s0 T
             = Inr (?r, if save_result g then g\<lparr>result' := Some ?r\<rparr> else g)"
    unfolding GSIntegrator_integrate_def Let_def E_def[symmetric]
    by (simp only: ns if_False loop lin fev arr bind_err_def sum.case)
  have rt: "?r ''t'' = Some (PyArray ?ts)" by simp
  have ry: "?r ''y'' = Some (PyArray ?y)" by simp
  have sh_ts: "shape ?ts = [nat (n_steps g) + 1]" by (simp add: n_def)
  have en_ts: "entries ?ts = map (\<lambda>i. real i * (E / real_of_int (n_steps g))) [0..<nat (n_steps g) + 1]"
    using assms(1) by (simp add: n_def del: upt_Suc)
  have sh_y: "shape ?y = (nat (n_steps g) + 1) # shape s0" by (simp add: n_def)
  have last_t': "entries ?ts ! nat (n_steps g) = E" using last_t by (simp only: n_def)
  show ?thesis
    unfolding E_def[symmetric]
    using run rt ry sh_ts en_ts first_t last_t' sh_y wf first
    by blast
qed


lemma zero_force_keeps_shape: "force_keeps_shape zero_force sh"
  by (simp add: force_keeps_shape_def zero_force_def zeros_def wf_array_def)

lemma named_stepper_time_grid_example:
  "0 < n_steps example_integrator
   \<and> step_type example_integrator = Some ''euler''
   \<and> FEVALS_PER_STEP gs_integrator ''euler'' = Some 1
   \<and> wf_array example_state
   \<and> step_keeps_shape (step_function example_integrator) zero_force (shape example_state)
   \<and> (\<exists>r g' ts y.
           GSIntegrator_integrate gs_integrator example_integrator zero_force example_state
             (Some 3) = Inr (r, g')
         \<and> r ''t'' = Some (PyArray ts)
         \<and> shape ts = [3]
         \<and> entries ts = [0, 3 / 2, 3]
         \<and> r ''y'' = Some (PyArray y)
         \<and> shape y = [3, 2]
         \<and> wf_array y
         \<and> getitem y 0 = Inr example_state)"
proof -
  have h1: "0 < n_steps example_integrator"
    by (simp add: example_integrator_def)
  have h2: "step_type example_integrator = Some ''euler''"
    by (simp add: example_integrator_def)
  have h3: "FEVALS_PER_STEP gs_integrator ''euler'' = Some 1"
    by (simp add: gs_integrator_def)
  have h4: "wf_array example_state"
    by (simp add: example_state_def wf_array_def)
  have h5: "step_keeps_shape (step_function example_integrator) zero_force (shape example_state)"
    using euler_step_keeps_shape [OF zero_force_keeps_shape]
    by (simp add: example_integrator_def)
  have n: "n_steps example_integrator = 2" "shape example_state = [2]"
    by (simp_all add: example_integrator_def example_state_def)
  have "\<exists>r g' ts y.
           GSIntegrator_integrate gs_integrator example_integrator zero_force example_state
             (Some 3) = Inr (r, g')
         \<and> r ''t'' = Some (PyArray ts)
         \<and> shape ts = [3]
         \<and> entries ts = [0, 3 / 2, 3]
         \<and> r ''y'' = Some (PyArray y)
         \<and> shape y = [3, 2]
         \<and> wf_array y
         \<and> getitem y 0 = Inr example_state"
    using named_stepper_time_grid_and_states [OF h1 h2 h3 h4 h5, of "Some 3"]
    by (simp add: n numeral_3_eq_3 upt_rec [of 0] upt_rec [of 1] upt_rec [of 2]) blast
  then show ?thesis using h1 h2 h3 h4 h5 by blast
qed

text \<open>
  C4 (fails on the code). A fixed-step integrator constructed with a step function of the
  caller and a positive \<open>n_steps\<close> stores the stepper name \<open>None\<close>. \<open>integrate\<close> runs the
  loop and computes the time points, then looks \<open>None\<close> up in \<open>FEVALS_PER_STEP\<close> and raises
  \<open>KeyError\<close>: it returns no result, so neither the \<open>n_steps + 1\<close> time points nor the
  states.
\<close>

theorem callable_stepper_gives_no_time_grid:
  "GSIntegrator_init gs_integrator (Some 3) (Some (Callable heun_step)) None
     = Inr example_custom_integrator
   \<and> integrate_loop example_custom_integrator zero_force (1 / 3) 3 0 example_state
       [example_state]
     = Inr [example_state, example_state, example_state, example_state]
   \<and> linspace 0 1 (n_steps example_custom_integrator + 1)
     = Inr \<lparr>shape = [4], entries = [0, 1 / 3, 2 / 3, 1]\<rparr>
   \<and> GSIntegrator_integrate gs_integrator example_custom_integrator zero_force example_state
       (Some 1) = Inl KeyError"
  by (simp add: model_defs example_custom_integrator_def heun_step_def numeral_3_eq_3
      numeral_2_eq_2 upt_rec [of 0] upt_rec [of 1] upt_rec [of 2] upt_rec [of 3]
      upt_rec [of "Suc 0"] upt_rec [of "Suc (Suc 0)"] upt_rec [of "Suc (Suc (Suc 0))"]
      upt_rec [of "Suc (Suc (Suc (Suc 0)))"])

subsection \<open>Registries of Runge-Kutta rules\<close>

lemma euler_step_is_runge_kutta: "euler_step = runge_kutta_step euler_tableau"
proof (intro ext)
  fix force state time dt
  show "euler_step force state time dt = runge_kutta_step euler_tableau force state time dt"
    by (cases "force state time")
       (simp_all add: euler_step_def runge_kutta_step_def euler_tableau_def bind_err_def
          split: sum.splits)
qed

lemma gs_integrator_is_runge_kutta_registry: "runge_kutta_registry gs_integrator"
  unfolding runge_kutta_registry_def
proof (intro allI impI)
  fix nm fname
  assume a: "STEP_FUNCTIONS gs_integrator nm = Some fname"
  then consider "nm = ''euler''" "fname = ''euler_step''"
    | "nm = ''rk2''" "fname = ''rk2_step''"
    | "nm = ''rk4''" "fname = ''rk4_step''"
    by (auto simp: gs_integrator_def split: if_splits)
  then show "\<exists>tab. module_attr gs_integrator fname = Some (runge_kutta_step tab)
                 \<and> FEVALS_PER_STEP gs_integrator nm = Some (int (length (stage_rows tab)))"
  proof cases
    case 1
    then show ?thesis
      by (intro exI[of _ euler_tableau])
         (simp add: gs_integrator_def euler_step_is_runge_kutta euler_tableau_def)
  next
    case 2
    then show ?thesis
      by (intro exI[of _ rk2_tableau]) (simp add: gs_integrator_def rk2_tableau_def)
  next
    case 3
    then show ?thesis
      by (intro exI[of _ rk4_tableau]) (simp add: gs_integrator_def rk4_tableau_def)
  qed
qed

lemma init_registered_stepper:
  assumes "runge_kutta_registry m"
    and "GSIntegrator_init m n_arg st_arg sv = Inr g"
    and "step_type g \<noteq> None"
  shows "\<exists>nm tab. step_type g = Some nm \<and> step_function g = runge_kutta_step tab
           \<and> FEVALS_PER_STEP m nm = Some (int (length (stage_rows tab)))"
    and "state_is_raveled g = False" and "tfirst g = False"
    and "n_steps g = case_option 10 id n_arg"
proof -
  obtain f nmo where r: "resolve_step_type m (case_option (Name ''euler'') id st_arg) = Inr (f, nmo)"
      and g: "step_function g = f" "step_type g = nmo" "state_is_raveled g = False"
        "tfirst g = False" "n_steps g = case_option 10 id n_arg"
    using assms(2)
    by (auto simp: GSIntegrator_init_def bind_err_def split: sum.splits)
  obtain nm where nm: "nmo = Some nm" using assms(3) g(2) by auto
  obtain fname where fn: "STEP_FUNCTIONS m nm = Some fname" "module_attr m fname = Some f"
    using r nm
    by (auto simp: resolve_step_type_def bind_err_def check_parameter_accepted_values_def
        split: step_value.splits if_splits option.splits sum.splits)
  obtain tab where tab: "module_attr m fname = Some (runge_kutta_step tab)"
      "FEVALS_PER_STEP m nm = Some (int (length (stage_rows tab)))"
    using assms(1) fn(1) unfolding runge_kutta_registry_def by blast
  have "f = runge_kutta_step tab" using fn(2) tab(1) by simp
  then show "\<exists>nm tab. step_type g = Some nm \<and> step_function g = runge_kutta_step tab
           \<and> FEVALS_PER_STEP m nm = Some (int (length (stage_rows tab)))"
    using g(1,2) nm tab(2) by blast
  show "state_is_raveled g = False" "tfirst g = False" "n_steps g = case_option 10 id n_arg"
    using g by simp_all
qed

subsection \<open>Identically zero vector fields\<close>

lemma broadcast_dims_ones: "broadcast_dims s (replicate (length s) (Suc 0)) = Some s"
  by (induction s) auto

lemma broadcast_entries_scalar:
  "broadcast_entries (replicate (length s) (Suc 0)) s [x] = replicate (prod_list s) x"
proof (induction s)
  case Nil
  then show ?case by simp
next
  case (Cons a as)
  have r: "row (prod_list (replicate (length as) (Suc 0))) 0 [x] = [x]"
    by (simp add: row_def)
  show ?case
  proof (cases "a = Suc 0")
    case True
    then show ?thesis using Cons.IH r by simp
  next
    case False
    then have "broadcast_entries (replicate (length (a # as)) (Suc 0)) (a # as) [x]
                 = concat (replicate a (replicate (prod_list as) x))"
      using Cons.IH by simp
    also have "\<dots> = replicate (a * prod_list as) x"
      by (induction a) (simp_all add: replicate_add)
    finally show ?thesis by simp
  qed
qed

lemma broadcast_to_scalar:
  "broadcast_to \<lparr>shape = [], entries = [x]\<rparr> s = Inr \<lparr>shape = s, entries = replicate (prod_list s) x\<rparr>"
proof -
  have "list_all2 (\<lambda>x t. x = t \<or> x = 1) (replicate (length s) (1::nat)) s"
    by (simp add: list_all2_conv_all_nth)
  then show ?thesis
    by (simp add: broadcast_to_def pad_shape_def broadcast_entries_scalar)
qed

lemma map2_add_zero: "length ys = length xs \<Longrightarrow> \<forall>y \<in> set ys. y = 0 \<Longrightarrow> map2 (+) xs ys = (xs :: real list)"
proof (induction xs arbitrary: ys)
  case Nil
  then show ?case by simp
next
  case (Cons x xs)
  then show ?case by (cases ys) auto
qed

lemma add_scalar_zero:
  assumes "wf_array s"
  shows "add_arrays s \<lparr>shape = [], entries = [0]\<rparr> = Inr s"
proof -
  have bs: "broadcast_shapes (shape s) [] = Some (shape s)"
    by (simp add: broadcast_shapes_def pad_shape_def broadcast_dims_ones)
  have m: "map2 (+) (entries s) (replicate (prod_list (shape s)) 0) = entries s"
    using assms by (intro map2_add_zero) (simp_all add: wf_array_def)
  show ?thesis
    using bs broadcast_to_same[OF assms] broadcast_to_scalar[of 0 "shape s"] m
    by (simp add: add_arrays_def bind_err_def)
qed

lemma add_zeros:
  assumes "wf_array s"
  shows "add_arrays s \<lparr>shape = shape s, entries = replicate (prod_list (shape s)) 0\<rparr> = Inr s"
proof -
  have m: "map2 (+) (entries s) (replicate (prod_list (shape s)) 0) = entries s"
    using assms by (intro map2_add_zero) (simp_all add: wf_array_def)
  have "add_arrays s \<lparr>shape = shape s, entries = replicate (prod_list (shape s)) 0\<rparr>
          = Inr \<lparr>shape = shape s, entries = map2 (+) (entries s) (entries \<lparr>shape = shape s, entries = replicate (prod_list (shape s)) 0\<rparr>)\<rparr>"
    using assms by (intro add_arrays_same_shape) (simp_all add: wf_array_def)
  then show ?thesis using m by simp
qed

lemma euler_step_zero_field:
  assumes "is_zero_field force" "wf_array s"
  shows "euler_step force s t dt = Inr s"
proof -
  have "force s t = Inr (zeros (shape s)) \<or> force s t = Inr (zeros [])"
    using assms(1) by (simp add: is_zero_field_def)
  then show ?thesis
  proof
    assume "force s t = Inr (zeros (shape s))"
    then show ?thesis using add_zeros[OF assms(2)]
      by (simp add: euler_step_def bind_err_def zeros_def scale_array_def)
  next
    assume "force s t = Inr (zeros [])"
    then show ?thesis using add_scalar_zero[OF assms(2)]
      by (simp add: euler_step_def bind_err_def zeros_def scale_array_def)
  qed
qed

lemma integrate_loop_fixed:
  assumes "\<And>t. step_function g force s0 t dt = Inr s0"
  shows "integrate_loop g force dt k i s0 states = Inr (states @ replicate k s0)"
proof (induction k arbitrary: i states)
  case 0
  then show ?case by simp
next
  case (Suc k)
  show ?case
    using assms[of "real i * dt"] Suc.IH[of "Suc i" "states @ [s0]"]
    by (simp add: step_def bind_err_def replicate_app_Cons_same)
qed

lemma integrate_fixed_state:
  assumes "\<And>t dt. step_function g force s0 t dt = Inr s0"
    and "0 < n_steps g"
    and "step_type g = Some nm"
    and "FEVALS_PER_STEP m nm = Some c"
  shows "\<exists>r. GSIntegrator_integrate m g force s0 T
               = Inr (r, if save_result g then g\<lparr>result' := Some r\<rparr> else g)
            \<and> r ''y'' = Some (PyArray \<lparr>shape = Suc (nat (n_steps g)) # shape s0,
                  entries = concat (map entries (replicate (Suc (nat (n_steps g))) s0))\<rparr>)"
proof -
  define E where "E = case_option 1 id T"
  define n where "n = n_steps g"
  let ?states = "s0 # replicate (nat n) s0"
  let ?y = "\<lparr>shape = Suc (nat n) # shape s0, entries = concat (map entries ?states)\<rparr>"
  have loop: "integrate_loop g force (E / real_of_int n) (nat n) 0 s0 [s0] = Inr ?states"
    using integrate_loop_fixed[of g force s0 "E / real_of_int n" "nat n" 0 "[s0]"] assms(1)
    by simp
  obtain ts where ts: "linspace 0 E (n + 1) = Inr ts"
    using assms(2) by (simp add: linspace_def n_def)
  have fev: "get_n_fevals m g n = Inr (c * n)"
    using assms(3,4) by (simp add: get_n_fevals_def)
  have len: "length ?states = Suc (nat n)" by simp
  have ne: "?states \<noteq> []" by simp
  have sh: "\<forall>x \<in> set ?states. shape x = shape s0" by simp
  have arr: "gs_array ?states = Inr ?y"
    using gs_array_same_shape[OF ne sh] by (simp only: len)
  let ?r = "[''t'' \<mapsto> PyArray ts, ''y'' \<mapsto> PyArray ?y, ''nfev'' \<mapsto> PyInt (c * n),
             ''njev'' \<mapsto> PyInt 0, ''sucess'' \<mapsto> PyBool True]"
  have ns: "n \<noteq> 0" using assms(2) by (simp add: n_def)
  have run: "GSIntegrator_integrate m g force s0 T
             = Inr (?r, if save_result g then g\<lparr>result' := Some ?r\<rparr> else g)"
    unfolding GSIntegrator_integrate_def Let_def E_def[symmetric] n_def[symmetric]
    by (simp only: ns if_False loop ts fev arr bind_err_def sum.case)
  have ry: "?r ''y'' = Some (PyArray ?y)" by simp
  have "?y = \<lparr>shape = Suc (nat (n_steps g)) # shape s0,
                  entries = concat (map entries (replicate (Suc (nat (n_steps g))) s0))\<rparr>"
    by (simp add: n_def)
  then show ?thesis using run ry by (intro exI[of _ ?r]) simp
qed

lemma scale_zero_array: "is_zero_array sh k \<Longrightarrow> is_zero_array sh (scale_array k c)"
  by (auto simp: is_zero_array_def zeros_def scale_array_def)

lemma add_zero_array:
  assumes "wf_array s" "is_zero_array (shape s) k"
  shows "add_arrays s k = Inr s"
  using assms add_zeros[OF assms(1)] add_scalar_zero[OF assms(1)]
  by (auto simp: is_zero_array_def zeros_def)

lemma combine_zero:
  assumes "wf_array s" "\<forall>k \<in> set ks. is_zero_array (shape s) k"
  shows "combine s dt coeffs ks = Inr s"
  using assms(2)
proof (induction coeffs arbitrary: ks)
  case Nil
  then show ?case by simp
next
  case (Cons a as)
  show ?case
  proof (cases ks)
    case Nil
    then show ?thesis by simp
  next
    case (Cons k ks')
    have "is_zero_array (shape s) (scale_array k (a * dt))"
      using Cons.prems Cons by (intro scale_zero_array) simp
    then have "add_arrays s (scale_array k (a * dt)) = Inr s"
      using assms(1) by (intro add_zero_array)
    moreover have "combine s dt as ks' = Inr s"
      using Cons.prems Cons by (intro Cons.IH) simp
    ultimately show ?thesis using Cons by (simp add: bind_err_def)
  qed
qed

lemma rk_stages_zero:
  assumes "wf_array s"
    and "\<And>t. \<exists>k. force s t = Inr k \<and> is_zero_array (shape s) k"
    and "\<forall>k \<in> set ks. is_zero_array (shape s) k"
  shows "\<exists>ks'. rk_stages force s time dt rows ks = Inr ks'
           \<and> (\<forall>k \<in> set ks'. is_zero_array (shape s) k)"
  using assms(3)
proof (induction rows arbitrary: ks)
  case Nil
  then show ?case by simp
next
  case (Cons row rows)
  obtain a c where row: "row = (a, c)" by (cases row)
  have arg: "combine s dt a ks = Inr s"
    using assms(1) Cons.prems by (rule combine_zero)
  obtain k where k: "force s (time + c * dt) = Inr k" "is_zero_array (shape s) k"
    using assms(2)[of "time + c * dt"] by blast
  have "\<forall>x \<in> set (ks @ [k]). is_zero_array (shape s) x"
    using Cons.prems k(2) by simp
  then obtain ks' where "rk_stages force s time dt rows (ks @ [k]) = Inr ks'"
      "\<forall>x \<in> set ks'. is_zero_array (shape s) x"
    using Cons.IH by blast
  then show ?case using arg k(1) row by (simp add: bind_err_def)
qed

lemma runge_kutta_step_at_zero:
  assumes "wf_array s"
    and "\<And>t. force s t = Inr (zeros (shape s)) \<or> force s t = Inr (zeros [])"
  shows "runge_kutta_step tab force s time dt = Inr s"
proof -
  have z: "\<And>t. \<exists>k. force s t = Inr k \<and> is_zero_array (shape s) k"
    using assms(2) unfolding is_zero_array_def by blast
  obtain ks where ks: "rk_stages force s time dt (stage_rows tab) [] = Inr ks"
      "\<forall>k \<in> set ks. is_zero_array (shape s) k"
    using rk_stages_zero[of s force "[]" time dt "stage_rows tab"] assms(1) z by auto
  have "combine s dt (weights tab) ks = Inr s"
    using assms(1) ks(2) by (rule combine_zero)
  then show ?thesis using ks(1) by (simp add: runge_kutta_step_def bind_err_def)
qed

text \<open>
  C9 (as stated, fails on the code). With \<open>n_steps = 0\<close> the integrator is constructed,
  and \<open>integrate\<close> raises \<open>ZeroDivisionError\<close> at \<open>dt = end_time / n_steps\<close>: no trajectory
  is returned.
\<close>

theorem zero_steps_counterexample:
  "GSIntegrator_init gs_integrator (Some 0) (Some (Name ''euler'')) None
      = Inr (example_integrator\<lparr>n_steps := 0\<rparr>)
   \<and> GSIntegrator_integrate gs_integrator (example_integrator\<lparr>n_steps := 0\<rparr>) zero_force
       example_state None = Inl ZeroDivisionError"
  by (simp add: model_defs)

text \<open>
  C9 (amended). For every registry of Runge-Kutta rules and every stepper name registered
  in it, every positive \<open>n_steps\<close>, every initial state and every \<open>end_time\<close>,
  \<open>integrate\<close> on an identically zero vector field returns a trajectory of \<open>n_steps + 1\<close>
  states, each equal to the initial state.
\<close>

theorem zero_field_trajectory_is_constant:
  assumes "runge_kutta_registry m"
    and "GSIntegrator_init m (Some n) (Some (Name nm)) sv = Inr g"
    and "0 < n"
    and "is_zero_field force"
    and "wf_array s0"
    and "i \<le> nat n"
  shows "\<exists>r g' y. GSIntegrator_integrate m g force s0 T = Inr (r, g')
           \<and> r ''y'' = Some (PyArray y)
           \<and> shape y = (nat n + 1) # shape s0
           \<and> getitem y (int i) = Inr s0"
proof -
  have named: "step_type g \<noteq> None"
    using assms(2)
    by (auto simp: GSIntegrator_init_def resolve_step_type_def bind_err_def
        split: sum.splits option.splits if_splits)
  obtain nm' tab where g: "step_type g = Some nm'" "step_function g = runge_kutta_step tab"
      "FEVALS_PER_STEP m nm' = Some (int (length (stage_rows tab)))"
    using init_registered_stepper(1)[OF assms(1,2) named] by blast
  have ng: "n_steps g = n"
    using init_registered_stepper(4)[OF assms(1,2) named] by simp
  have zf: "\<And>t. force s0 t = Inr (zeros (shape s0)) \<or> force s0 t = Inr (zeros [])"
    using assms(4) by (simp add: is_zero_field_def)
  have stp: "\<And>t dt. step_function g force s0 t dt = Inr s0"
    unfolding g(2) using assms(5) zf by (rule runge_kutta_step_at_zero)
  have pos: "0 < n_steps g" using assms(3) ng by simp
  obtain r where r:
      "GSIntegrator_integrate m g force s0 T
         = Inr (r, if save_result g then g\<lparr>result' := Some r\<rparr> else g)"
      "r ''y'' = Some (PyArray \<lparr>shape = Suc (nat (n_steps g)) # shape s0,
          entries = concat (map entries (replicate (Suc (nat (n_steps g))) s0))\<rparr>)"
    using integrate_fixed_state[of g force s0 nm' m _ T, OF stp pos g(1) g(3)] by blast
  let ?xs = "replicate (Suc (nat n)) s0"
  let ?y = "\<lparr>shape = Suc (nat n) # shape s0, entries = concat (map entries ?xs)\<rparr>"
  have all: "\<forall>x \<in> set ?xs. shape x = shape s0 \<and> wf_array x"
    using assms(5) by simp
  have ilt: "i < length ?xs" using assms(6) by simp
  have "getitem \<lparr>shape = length ?xs # shape s0, entries = concat (map entries ?xs)\<rparr> (int i)
          = Inr (?xs ! i)"
    using all ilt by (rule getitem_stacked)
  moreover have "?xs ! i = s0" using ilt by (simp del: replicate_Suc)
  moreover have "length ?xs = Suc (nat n)" by (simp del: replicate_Suc)
  ultimately have item: "getitem ?y (int i) = Inr s0" by (simp only:)
  have ry: "r ''y'' = Some (PyArray ?y)" using r(2) by (simp only: ng)
  have shy: "shape ?y = (nat n + 1) # shape s0" by simp
  show ?thesis using r(1) ry shy item by blast
qed


lemma zero_force_is_zero_field: "is_zero_field zero_force"
  by (simp add: is_zero_field_def zero_force_def)

theorem zero_field_trajectory_is_constant_witness:
  "runge_kutta_registry gs_integrator
   \<and> GSIntegrator_init gs_integrator (Some 2) (Some (Name ''rk4'')) None
       = Inr (example_integrator\<lparr>step_function := runge_kutta_step rk4_tableau,
                                  step_type := Some ''rk4''\<rparr>)
   \<and> (0::int) < 2
   \<and> is_zero_field zero_force
   \<and> wf_array example_state
   \<and> (2::nat) \<le> nat 2
   \<and> (\<exists>r g' y. GSIntegrator_integrate gs_integrator
                   (example_integrator\<lparr>step_function := runge_kutta_step rk4_tableau,
                                       step_type := Some ''rk4''\<rparr>)
                   zero_force example_state None = Inr (r, g')
          \<and> r ''y'' = Some (PyArray y)
          \<and> shape y = [3, 2]
          \<and> getitem y 2 = Inr example_state)"
proof -
  let ?g = "example_integrator\<lparr>step_function := runge_kutta_step rk4_tableau,
                               step_type := Some ''rk4''\<rparr>"
  have h0: "runge_kutta_registry gs_integrator"
    by (rule gs_integrator_is_runge_kutta_registry)
  have h1: "GSIntegrator_init gs_integrator (Some 2) (Some (Name ''rk4'')) None = Inr ?g"
    by (simp add: model_defs)
  have h2: "(0::int) < 2" by simp
  have h3: "is_zero_field zero_force" by (rule zero_force_is_zero_field)
  have h4: "wf_array example_state"
    by (simp add: example_state_def wf_array_def)
  have h5: "(2::nat) \<le> nat 2" by simp
  have "\<exists>r g' y. GSIntegrator_integrate gs_integrator ?g zero_force example_state None
                   = Inr (r, g')
          \<and> r ''y'' = Some (PyArray y)
          \<and> shape y = [3, 2]
          \<and> getitem y 2 = Inr example_state"
    using zero_field_trajectory_is_constant [OF h0 h1 h2 h3 h4 h5, of None]
    by (simp add: example_state_def)
  then show ?thesis using h0 h1 h2 h3 h4 h5 by blast
qed

subsection \<open>The exponential map solver\<close>



lemma broadcast_to_shape: "broadcast_to a tgt = Inr b \<Longrightarrow> shape b = tgt"
  by (auto simp: broadcast_to_def Let_def split: if_splits)

lemma stack_pair:
  "shape a = shape b \<Longrightarrow>
   stack [a, b] = Inr \<lparr>shape = 2 # shape b, entries = entries a @ entries b\<rparr>"
  by (simp add: stack_def)





subsection \<open>The zero tangent vector\<close>

lemma euler_step_zero_at:
  assumes "force s t = Inr (zeros (shape s))" "wf_array s"
  shows "euler_step force s t dt = Inr s"
  using assms add_zeros[OF assms(2)]
  by (simp add: euler_step_def bind_err_def zeros_def scale_array_def)

lemma getitem_last_replicate:
  assumes "wf_array s"
  shows "getitem \<lparr>shape = Suc n # shape s,
                  entries = concat (map entries (replicate (Suc n) s))\<rparr> (- 1) = Inr s"
proof -
  let ?xs = "replicate (Suc n) s"
  have all: "\<forall>x \<in> set ?xs. shape x = shape s \<and> wf_array x"
    using assms by simp
  have ne: "?xs \<noteq> []" by simp
  have "getitem \<lparr>shape = length ?xs # shape s, entries = concat (map entries ?xs)\<rparr> (- 1)
          = Inr (last ?xs)"
    using all ne by (rule getitem_stacked_last)
  moreover have "last ?xs = s" by (simp del: replicate_Suc)
  moreover have "length ?xs = Suc n" by (simp del: replicate_Suc)
  ultimately show ?thesis by (simp only:)
qed

lemma solve_zero_fixed_step:
  assumes "runge_kutta_registry (integrator_module_of env)"
    and "GSIntegrator_init (integrator_module_of env) n_arg st_arg sv = Inr g"
    and "step_type g \<noteq> None"
    and "0 < n_steps g"
    and "integrator solver = GS g"
    and "wf_array base_point"
    and "rest_is_stationary mt (shape base_point)"
  shows "\<exists>solver'. solve env solver mt (zeros (shape base_point)) base_point
                     = Inr (base_point, solver')"
proof -
  let ?sh = "shape base_point"
  let ?d = "prod_list ?sh"
  let ?s0 = "\<lparr>shape = 2 # ?sh, entries = entries base_point @ replicate ?d 0\<rparr>"
  let ?f = "\<lambda>state t. force_unraveled_state mt state t"
  obtain nm tab where g: "step_type g = Some nm" "step_function g = runge_kutta_step tab"
      "FEVALS_PER_STEP (integrator_module_of env) nm = Some (int (length (stage_rows tab)))"
    using init_registered_stepper(1)[OF assms(1,2,3)] by blast
  have fl: "state_is_raveled g = False" "tfirst g = False"
    using init_registered_stepper(2,3)[OF assms(1,2,3)] by simp_all
  have bc: "broadcast_to base_point (shape (zeros ?sh)) = Inr base_point"
    using broadcast_to_same[OF assms(6)] by (simp add: zeros_def)
  have st: "stack [base_point, zeros ?sh] = Inr ?s0"
    by (simp add: stack_def zeros_def)
  have wf0: "wf_array ?s0"
    using assms(6) by (simp add: wf_array_def)
  have f0: "\<And>t. ?f ?s0 t = Inr (zeros (shape ?s0)) \<or> ?f ?s0 t = Inr (zeros [])"
    using assms(6,7) by (simp add: rest_is_stationary_def force_unraveled_state_def)
  have stp: "\<And>t dt. step_function g ?f ?s0 t dt = Inr ?s0"
    unfolding g(2) using wf0 f0 by (rule runge_kutta_step_at_zero)
  obtain r where r: "GSIntegrator_integrate (integrator_module_of env) g ?f ?s0 None
               = Inr (r, if save_result g then g\<lparr>result' := Some r\<rparr> else g)"
      "r ''y'' = Some (PyArray \<lparr>shape = Suc (nat (n_steps g)) # shape ?s0,
                  entries = concat (map entries (replicate (Suc (nat (n_steps g))) ?s0))\<rparr>)"
    using integrate_fixed_state[of g ?f ?s0 nm "integrator_module_of env" _ None,
        OF stp assms(4) g(1) g(3)]
    by blast
  let ?g' = "if save_result g then g\<lparr>result' := Some r\<rparr> else g"
  let ?ys = "\<lparr>shape = Suc (nat (n_steps g)) # shape ?s0,
                  entries = concat (map entries (replicate (Suc (nat (n_steps g))) ?s0))\<rparr>"
  have gf: "get_force solver mt = State_first ?f"
    using assms(5) fl by (simp add: get_force_def Let_def)
  have run: "integrator_integrate env (integrator solver) (get_force solver mt) ?s0 None
               = Inr (r, GS ?g')"
    using r(1) assms(5) gf by (simp add: bind_err_def)
  have last: "getitem ?ys (- 1) = Inr ?s0"
    using wf0 by (rule getitem_last_replicate)
  have pos: "getitem ?s0 0 = Inr base_point"
    using assms(6) by (simp add: getitem_def row_def wf_array_def)
  have flag: "\<not> integrator_state_is_raveled (GS ?g')"
    using fl(1) by simp
  have sr: "simplify_result (solver\<lparr>integrator := GS ?g'\<rparr>) r mt = Inr base_point"
    using r(2) last pos flag
    by (simp add: simplify_result_def getattr_result_def bind_err_def del: replicate_Suc)
  have "solve env solver mt (zeros ?sh) base_point = Inr (base_point, solver\<lparr>integrator := GS ?g'\<rparr>)"
    unfolding solve_def Let_def
    using bc st run sr by (simp add: bind_err_def)
  then show ?thesis by blast
qed

lemma force_raveled_at_rest:
  assumes "wf_array base_point" "shape base_point = [dim mt]"
    and "rest_is_stationary mt (shape base_point)"
  shows "force_raveled_state mt
           \<lparr>shape = [dim mt + dim mt], entries = entries base_point @ replicate (dim mt) 0\<rparr> t
         = Inr (zeros [dim mt + dim mt])"
proof -
  let ?d = "dim mt"
  let ?pe = "entries base_point"
  let ?y0 = "\<lparr>shape = [?d + ?d], entries = ?pe @ replicate ?d 0\<rparr>"
  have len: "length ?pe = ?d" using assms(1,2) by (simp add: wf_array_def)
  have s1: "slice_to ?y0 ?d = Inr \<lparr>shape = [?d], entries = ?pe\<rparr>"
    using len by (simp add: slice_to_def)
  have s2: "slice_from ?y0 ?d = Inr \<lparr>shape = [?d], entries = replicate ?d 0\<rparr>"
    using len by (simp add: slice_from_def)
  have st: "stack [\<lparr>shape = [?d], entries = ?pe\<rparr>, \<lparr>shape = [?d], entries = replicate ?d 0\<rparr>]
              = Inr \<lparr>shape = [2, ?d], entries = ?pe @ replicate ?d 0\<rparr>"
    by (simp add: stack_def)
  have geo: "geodesic_equation mt \<lparr>shape = [2, ?d], entries = ?pe @ replicate ?d 0\<rparr> t
               = Inr (zeros [2, ?d])"
    using assms by (simp add: rest_is_stationary_def)
  have fl: "flatten (zeros [2, ?d]) = zeros [?d + ?d]"
    by (simp add: flatten_def zeros_def mult_2)
  show ?thesis
    using s1 s2 st geo fl by (simp add: force_raveled_state_def bind_err_def)
qed

lemma nth_row: "j < k \<Longrightarrow> i * k + j < length xs \<Longrightarrow> row k i xs ! j = xs ! (i * k + j)"
  by (simp add: row_def)

lemma adapter_at_equilibrium:
  assumes "keeps_equilibrium (solve_ivp env) (0, case_option 1 id T) (solver_method p) (options p)"
    and "wf_array y0" "shape y0 = [length (entries y0)]"
    and "flatten s0 = y0"
    and "\<And>t. f t y0 = Inr (zeros (shape y0))"
  shows "\<exists>r y'. SCPSolveIVP_integrate env p f s0 T
                   = Inr (r, if save_result p then p\<lparr>result' := Some r\<rparr> else p)
            \<and> r ''y'' = Some (PyArray y')
            \<and> getitem y' (- 1) = Inr y0"
proof -
  let ?n = "length (entries y0)"
  obtain raw y k where c:
      "solve_ivp env (\<lambda>t state. f t state) (0, case_option 1 id T) y0 (solver_method p)
         (options p) = Inr raw"
      "raw ''y'' = Some (PyArray y)" "0 < k" "shape y = [?n, k]"
      "\<forall>i<?n. \<forall>j<k. entries y ! (i * k + j) = entries y0 ! i"
    using assms(1,2,3,5) unfolding keeps_equilibrium_def by blast
  let ?rows = "map (\<lambda>r. map (\<lambda>i. entries y ! (i * k + r)) [0..<?n]) [0..<k]"
  let ?y' = "\<lparr>shape = [k, ?n], entries = concat ?rows\<rparr>"
  have conv_y: "ode_result_to_backend_type env raw ''y'' = Some (PyArray y)"
    using c(2) by (simp add: ode_result_to_backend_type_def to_backend_array_def)
  have mv: "moveaxis_0_last y = Inr ?y'"
    using c(4) by (simp add: moveaxis_0_last_def)
  have rowk: "?rows ! (k - 1) = entries y0"
  proof -
    have "?rows ! (k - 1) = map (\<lambda>i. entries y ! (i * k + (k - 1))) [0..<?n]"
      using c(3) by simp
    also have "\<dots> = map (\<lambda>i. entries y0 ! i) [0..<?n]"
    proof (rule map_cong[OF refl])
      fix i assume "i \<in> set [0..<?n]"
      then have "i < ?n" by simp
      moreover have "k - 1 < k" using c(3) by simp
      ultimately show "entries y ! (i * k + (k - 1)) = entries y0 ! i"
        using c(5) by blast
    qed
    also have "\<dots> = entries y0" by (rule map_nth)
    finally show ?thesis .
  qed
  have "row ?n (k - 1) (concat ?rows) = ?rows ! (k - 1)"
    using c(3) by (intro row_concat) auto
  then have r: "row ?n (k - 1) (concat ?rows) = entries y0" using rowk by simp
  have nk: "nat (int k - 1) = k - 1" by simp
  have g: "getitem ?y' (- 1) = Inr \<lparr>shape = [?n], entries = entries y0\<rparr>"
    using c(3) r by (simp add: getitem_def nk)
  have y0: "\<lparr>shape = [?n], entries = entries y0\<rparr> = y0"
    using assms(3) by simp
  let ?conv = "ode_result_to_backend_type env raw"
  let ?r = "?conv(''y'' \<mapsto> PyArray ?y')"
  have run: "SCPSolveIVP_integrate env p f s0 T
               = Inr (?r, if save_result p then p\<lparr>result' := Some ?r\<rparr> else p)"
    using c(1) conv_y mv assms(4)
    by (simp add: SCPSolveIVP_integrate_def bind_err_def getattr_result_def Let_def)
  have ry: "?r ''y'' = Some (PyArray ?y')" by simp
  show ?thesis using run ry g y0 by (intro exI[of _ ?r] exI[of _ ?y']) simp
qed

lemma solve_zero_adaptive:
  assumes "integrator solver = SCP p" "state_is_raveled p" "tfirst p"
    and "keeps_equilibrium (solve_ivp env) (0, 1) (solver_method p) (options p)"
    and "wf_array base_point" "shape base_point = [dim mt]"
    and "rest_is_stationary mt (shape base_point)"
  shows "\<exists>solver'. solve env solver mt (zeros (shape base_point)) base_point
                     = Inr (base_point, solver')"
proof -
  let ?d = "dim mt"
  let ?pe = "entries base_point"
  let ?s0 = "\<lparr>shape = [2, ?d], entries = ?pe @ replicate ?d 0\<rparr>"
  let ?y0 = "\<lparr>shape = [?d + ?d], entries = ?pe @ replicate ?d 0\<rparr>"
  let ?f = "\<lambda>t state. force_raveled_state mt state t"
  have len: "length ?pe = ?d" using assms(5,6) by (simp add: wf_array_def)
  have bc: "broadcast_to base_point (shape (zeros (shape base_point))) = Inr base_point"
    using broadcast_to_same[OF assms(5)] by (simp add: zeros_def)
  have st: "stack [base_point, zeros (shape base_point)] = Inr ?s0"
    using assms(6) by (simp add: stack_def zeros_def)
  have wfy: "wf_array ?y0" using len by (simp add: wf_array_def)
  have shy: "shape ?y0 = [length (entries ?y0)]" using len by simp
  have fl: "flatten ?s0 = ?y0" using len by (simp add: flatten_def)
  have f0: "\<And>t. ?f t ?y0 = Inr (zeros (shape ?y0))"
    using force_raveled_at_rest[OF assms(5,6,7)] by simp
  obtain r y' where r:
      "SCPSolveIVP_integrate env p ?f ?s0 None
         = Inr (r, if save_result p then p\<lparr>result' := Some r\<rparr> else p)"
      "r ''y'' = Some (PyArray y')" "getitem y' (- 1) = Inr ?y0"
    using adapter_at_equilibrium[of env None p ?y0 ?s0 ?f] assms(4) wfy shy fl f0 by auto
  let ?p' = "if save_result p then p\<lparr>result' := Some r\<rparr> else p"
  have gf: "get_force solver mt = Time_first ?f"
    using assms(1,2,3) by (simp add: get_force_def Let_def)
  have run: "integrator_integrate env (integrator solver) (get_force solver mt) ?s0 None
               = Inr (r, SCP ?p')"
    using r(1) assms(1) gf by (simp add: bind_err_def)
  have flag: "integrator_state_is_raveled (SCP ?p')" using assms(2) by simp
  have sl: "slice_to ?y0 ?d = Inr base_point"
    using len assms(6) by (simp add: slice_to_def)
  have sr: "simplify_result (solver\<lparr>integrator := SCP ?p'\<rparr>) r mt = Inr base_point"
    using r(2,3) sl flag
    by (simp add: simplify_result_def getattr_result_def bind_err_def)
  have "solve env solver mt (zeros (shape base_point)) base_point
          = Inr (base_point, solver\<lparr>integrator := SCP ?p'\<rparr>)"
    unfolding solve_def Let_def
    using bc st run sr by (simp add: bind_err_def)
  then show ?thesis by blast
qed

lemma flat_metric_rest_is_stationary: "rest_is_stationary (flat_metric n) sh"
  unfolding rest_is_stationary_def
proof (intro allI impI)
  fix p t assume a: "wf_array p \<and> shape p = sh"
  let ?d = "prod_list sh"
  let ?s = "\<lparr>shape = 2 # sh, entries = entries p @ replicate ?d 0\<rparr>"
  have len: "length (entries p) = ?d" using a by (simp add: wf_array_def)
  have g0: "getitem ?s 0 = Inr \<lparr>shape = sh, entries = entries p\<rparr>"
    using len by (simp add: getitem_def row_def)
  have g1: "getitem ?s 1 = Inr \<lparr>shape = sh, entries = replicate ?d 0\<rparr>"
    using len by (simp add: getitem_def row_def)
  have st: "stack [\<lparr>shape = sh, entries = replicate ?d 0\<rparr>, zeros sh] = Inr (zeros (2 # sh))"
    by (simp add: stack_def zeros_def replicate_add [symmetric] mult_2)
  show "geodesic_equation (flat_metric n) ?s t = Inr (zeros (2 # sh))"
    using g0 g1 st by (simp add: flat_metric_def bind_err_def)
qed

lemma one_step_keeps_equilibrium: "keeps_equilibrium one_step_solve_ivp ival meth opts"
  unfolding keeps_equilibrium_def
proof (intro allI impI)
  fix f :: tfirst_force and y0 :: ndarray
  assume a: "wf_array y0 \<and> shape y0 = [length (entries y0)]
               \<and> (\<forall>t. f t y0 = Inr (zeros (shape y0)))"
  let ?n = "length (entries y0)"
  let ?e = "entries y0"
  let ?rows = "map (\<lambda>r. map (\<lambda>i. (?e @ ?e) ! (i * ?n + r)) [0..<2]) [0..<?n]"
  let ?y = "\<lparr>shape = [?n, 2], entries = concat ?rows\<rparr>"
  let ?raw = "[''t'' \<mapsto> PyArray \<lparr>shape = [2], entries = [fst ival, snd ival]\<rparr>,
          ''y'' \<mapsto> PyArray ?y, ''nfev'' \<mapsto> PyInt 1, ''njev'' \<mapsto> PyInt 0,
          ''success'' \<mapsto> PyBool True]"
  have f0: "f (fst ival) y0 = Inr (zeros (shape y0))" using a by simp
  have sc: "scale_array (zeros (shape y0)) (snd ival - fst ival)
              = \<lparr>shape = shape y0, entries = replicate (prod_list (shape y0)) 0\<rparr>"
    by (simp add: scale_array_def zeros_def)
  have ad: "add_arrays y0 (scale_array (zeros (shape y0)) (snd ival - fst ival)) = Inr y0"
    unfolding sc using a by (intro add_zeros) simp
  have st: "stack [y0, y0] = Inr \<lparr>shape = [2, ?n], entries = ?e @ ?e\<rparr>"
    using a by (simp add: stack_def)
  have mv: "moveaxis_0_last \<lparr>shape = [2, ?n], entries = ?e @ ?e\<rparr> = Inr ?y"
    by (simp add: moveaxis_0_last_def Let_def)
  have run: "one_step_solve_ivp f ival y0 meth opts = Inr ?raw"
    using f0 ad st mv by (simp add: one_step_solve_ivp_def bind_err_def)
  have item: "entries ?y ! (i * 2 + j) = ?e ! i" if "i < ?n" "j < 2" for i j
  proof -
    have r: "row 2 i (concat ?rows) = ?rows ! i"
      using that(1) by (intro row_concat) auto
    have len: "length (concat ?rows) = ?n * 2"
      by (simp add: length_concat comp_def sum_list_triv)
    have "i * 2 + j < length (concat ?rows)"
      using that len by simp
    then have "concat ?rows ! (i * 2 + j) = row 2 i (concat ?rows) ! j"
      using that(2) nth_row[of j 2 i "concat ?rows"] by simp
    also have "\<dots> = (?rows ! i) ! j" using r by simp
    also have "\<dots> = (?e @ ?e) ! (j * ?n + i)" using that by simp
    also have "\<dots> = ?e ! i"
    proof (cases j)
      case 0
      then show ?thesis using that(1) by (simp add: nth_append)
    next
      case (Suc j')
      then have "j = 1" using that(2) by simp
      then show ?thesis by (simp add: nth_append)
    qed
    finally show ?thesis by simp
  qed
  show "\<exists>raw y k. one_step_solve_ivp f ival y0 meth opts = Inr raw
          \<and> raw ''y'' = Some (PyArray y) \<and> 0 < k \<and> shape y = [?n, k]
          \<and> (\<forall>i<?n. \<forall>j<k. entries y ! (i * k + j) = ?e ! i)"
    using run item by (intro exI[of _ ?raw] exI[of _ ?y] exI[of _ 2]) simp
qed

text \<open>
  C7 (as stated, fails on the code). \<open>GSIntegrator(n_steps=0)\<close> is constructed, and \<open>solve\<close>
  on it raises \<open>ZeroDivisionError\<close> for the zero tangent vector at a base point of flat
  space. With the adapter of the adaptive solver the vector field cuts the flat state at
  \<open>dim\<close>: for two base points of flat space at once, and the zero tangent vector at each,
  \<open>solve\<close> raises \<open>ValueError\<close>.
\<close>

theorem zero_tangent_vec_raises_counterexample:
  "GSIntegrator_init gs_integrator (Some 0) None None = Inr (example_integrator\<lparr>n_steps := 0\<rparr>)
   \<and> solve example_env \<lparr>integrator = GS (example_integrator\<lparr>n_steps := 0\<rparr>)\<rparr> (flat_metric 2)
       (zeros [2]) example_base_point = Inl ZeroDivisionError
   \<and> solve example_env adapter_solver (flat_metric 2) (zeros [2, 2])
       \<lparr>shape = [2, 2], entries = [1, 2, 3, 4]\<rparr> = Inl ValueError"
  by (simp add: model_defs adapter_solver_def example_adapter_def flat_metric_def get_force_def
      solve_def force_raveled_state_def force_unraveled_state_def simplify_result_def
      example_base_point_def Let_def
      numeral_2_eq_2 numeral_3_eq_3 upt_rec [of 0] upt_rec [of 1] upt_rec [of 2]
      upt_rec [of 3])

text \<open>
  C7 (amended). Let the geodesic equation of the metric give the zero derivative at the
  states of zero velocity, as the geodesic equation of a metric does. On a fixed-step
  integrator with a positive \<open>n_steps\<close> and a stepper registered in a registry of
  Runge-Kutta rules, for base points of every shape, and on the adapter of an adaptive
  solver that leaves a state at which the vector field vanishes where it is, for one base
  point of shape \<open>(dim,)\<close>, \<open>solve\<close> with the zero tangent vector returns the base point.
\<close>

theorem zero_tangent_vec_returns_base_point:
  assumes "wf_array base_point"
    and "rest_is_stationary mt (shape base_point)"
    and "(\<exists>g n_arg st_arg sv. integrator solver = GS g
            \<and> runge_kutta_registry (integrator_module_of env)
            \<and> GSIntegrator_init (integrator_module_of env) n_arg st_arg sv = Inr g
            \<and> step_type g \<noteq> None \<and> 0 < n_steps g)
       \<or> (\<exists>p meth sv opts. integrator solver = SCP p
            \<and> SCPSolveIVP_init meth sv opts = p
            \<and> keeps_equilibrium (solve_ivp env) (0, 1) (solver_method p) (options p)
            \<and> shape base_point = [dim mt])"
  shows "\<exists>solver'. solve env solver mt (zeros (shape base_point)) base_point
                     = Inr (base_point, solver')"
  using assms(3)
proof (elim disjE exE conjE)
  fix g n_arg st_arg sv
  assume "integrator solver = GS g" "runge_kutta_registry (integrator_module_of env)"
    "GSIntegrator_init (integrator_module_of env) n_arg st_arg sv = Inr g"
    "step_type g \<noteq> None" "0 < n_steps g"
  then show ?thesis
    using assms(1,2) solve_zero_fixed_step[of env n_arg st_arg sv g solver base_point mt]
    by blast
next
  fix p meth sv opts
  assume p: "integrator solver = SCP p" "SCPSolveIVP_init meth sv opts = p"
    "keeps_equilibrium (solve_ivp env) (0, 1) (solver_method p) (options p)"
    "shape base_point = [dim mt]"
  have fl: "state_is_raveled p" "tfirst p"
    using p(2) by (auto simp: SCPSolveIVP_init_def)
  show ?thesis
    using solve_zero_adaptive[OF p(1) fl p(3) assms(1) p(4) assms(2)] .
qed

theorem zero_tangent_vec_returns_base_point_witness:
  "wf_array example_base_point
   \<and> rest_is_stationary (flat_metric 2) (shape example_base_point)
   \<and> integrator example_rk4_solver = GS example_rk4_integrator
   \<and> runge_kutta_registry (integrator_module_of example_env)
   \<and> GSIntegrator_init (integrator_module_of example_env) (Some 2) (Some (Name ''rk4'')) None
       = Inr example_rk4_integrator
   \<and> step_type example_rk4_integrator \<noteq> None
   \<and> 0 < n_steps example_rk4_integrator
   \<and> (\<exists>solver'. solve example_env example_rk4_solver (flat_metric 2)
                     (zeros (shape example_base_point)) example_base_point
                   = Inr (example_base_point, solver'))
   \<and> integrator adapter_solver = SCP example_adapter
   \<and> SCPSolveIVP_init None None Map.empty = example_adapter
   \<and> keeps_equilibrium (solve_ivp example_env) (0, 1) (solver_method example_adapter)
         (options example_adapter)
   \<and> shape example_base_point = [dim (flat_metric 2)]
   \<and> (\<exists>solver'. solve example_env adapter_solver (flat_metric 2)
                     (zeros (shape example_base_point)) example_base_point
                   = Inr (example_base_point, solver'))"
proof -
  have h1: "wf_array example_base_point"
    by (simp add: example_base_point_def wf_array_def)
  have h2: "rest_is_stationary (flat_metric 2) (shape example_base_point)"
    by (rule flat_metric_rest_is_stationary)
  have a1: "integrator example_rk4_solver = GS example_rk4_integrator"
    by (simp add: example_rk4_solver_def)
  have a2: "runge_kutta_registry (integrator_module_of example_env)"
    using gs_integrator_is_runge_kutta_registry by (simp add: example_env_def)
  have a3: "GSIntegrator_init (integrator_module_of example_env) (Some 2) (Some (Name ''rk4''))
              None = Inr example_rk4_integrator"
    by (simp add: model_defs example_rk4_integrator_def)
  have a4: "step_type example_rk4_integrator \<noteq> None"
    by (simp add: example_rk4_integrator_def)
  have a5: "0 < n_steps example_rk4_integrator"
    by (simp add: example_rk4_integrator_def example_integrator_def)
  have b1: "integrator adapter_solver = SCP example_adapter"
    by (simp add: adapter_solver_def)
  have b0: "SCPSolveIVP_init None None Map.empty = example_adapter"
    by (simp add: example_adapter_def)
  have b2: "keeps_equilibrium (solve_ivp example_env) (0, 1) (solver_method example_adapter)
              (options example_adapter)"
    using one_step_keeps_equilibrium by (simp add: example_env_def)
  have b3: "shape example_base_point = [dim (flat_metric 2)]"
    by (simp add: example_base_point_def flat_metric_def)
  have fixed: "\<exists>g n_arg st_arg sv. integrator example_rk4_solver = GS g
            \<and> runge_kutta_registry (integrator_module_of example_env)
            \<and> GSIntegrator_init (integrator_module_of example_env) n_arg st_arg sv = Inr g
            \<and> step_type g \<noteq> None \<and> 0 < n_steps g"
    using a1 a2 a3 a4 a5 by blast
  have adaptive: "\<exists>p meth sv opts. integrator adapter_solver = SCP p
            \<and> SCPSolveIVP_init meth sv opts = p
            \<and> keeps_equilibrium (solve_ivp example_env) (0, 1) (solver_method p) (options p)
            \<and> shape example_base_point = [dim (flat_metric 2)]"
    using b1 b0 b2 b3 by blast
  have c1: "\<exists>solver'. solve example_env example_rk4_solver (flat_metric 2)
                     (zeros (shape example_base_point)) example_base_point
                   = Inr (example_base_point, solver')"
    using zero_tangent_vec_returns_base_point [OF h1 h2 disjI1 [OF fixed]] .
  have c2: "\<exists>solver'. solve example_env adapter_solver (flat_metric 2)
                     (zeros (shape example_base_point)) example_base_point
                   = Inr (example_base_point, solver')"
    using zero_tangent_vec_returns_base_point [OF h1 h2 disjI2 [OF adaptive]] .
  show ?thesis
    using h1 h2 a1 a2 a3 a4 a5 c1 b1 b0 b2 b3 c2 by (intro conjI)
qed

subsection \<open>Batches of tangent vectors\<close>

lemma row_append_left: "Suc i * d \<le> length A \<Longrightarrow> row d i (A @ T) = row d i A"
  by (simp add: row_def)

lemma row_append_right: "length A = k * d \<Longrightarrow> row d (k + i) (A @ T) = row d i T"
  by (simp add: row_def add_mult_distrib)

lemma row_map2: "row d i (map2 f xs ys) = map2 f (row d i xs) (row d i ys)"
  by (simp add: row_def take_map drop_map take_zip drop_zip)

lemma row_take: "Suc i * d \<le> m \<Longrightarrow> row d i (take m xs) = row d i xs"
  by (simp add: row_def take_drop min_def)

lemma row_replicate_concat:
  "i < k \<Longrightarrow> row (length xs) i (concat (replicate k xs)) = xs"
proof -
  assume a: "i < k"
  have "row (length xs) i (concat (replicate k xs)) = replicate k xs ! i"
    using a by (intro row_concat) auto
  then show ?thesis using a by simp
qed

lemma suc_mult_le: "i < k \<Longrightarrow> Suc i * d \<le> k * d"
  by (metis Suc_leI mult_le_mono1)

lemma batch_rows_bound:
  assumes "i < k" "length xs = 2 * (k * d)"
  shows "Suc i * d \<le> length xs" "Suc (k + i) * d \<le> length xs"
proof -
  have a: "Suc i * d \<le> k * d" using assms(1) by (rule suc_mult_le)
  then show "Suc i * d \<le> length xs" using assms(2) by simp
  have e: "Suc (k + i) * d = k * d + Suc i * d" by (simp add: add_mult_distrib)
  have "k * d + Suc i * d \<le> 2 * (k * d)" using a by linarith
  then show "Suc (k + i) * d \<le> length xs" by (simp only: e assms(2))
qed

lemma wf_batch_state_length:
  "wf_array S \<Longrightarrow> shape S = 2 # k # sh \<Longrightarrow> length (entries S) = 2 * (k * prod_list sh)"
  by (simp add: wf_array_def)

lemma wf_batch_item:
  assumes "wf_array S" "shape S = 2 # k # sh" "i < k"
  shows "wf_array (batch_item k sh i S)" "shape (batch_item k sh i S) = 2 # sh"
proof -
  have len: "length (entries S) = 2 * (k * prod_list sh)"
    using assms(1,2) by (rule wf_batch_state_length)
  have "length (row (prod_list sh) i (entries S)) = prod_list sh"
    using batch_rows_bound(1)[OF assms(3) len] by (rule length_row)
  moreover have "length (row (prod_list sh) (k + i) (entries S)) = prod_list sh"
    using batch_rows_bound(2)[OF assms(3) len] by (rule length_row)
  ultimately show "wf_array (batch_item k sh i S)"
    by (simp add: batch_item_def wf_array_def)
  show "shape (batch_item k sh i S) = 2 # sh" by (simp add: batch_item_def)
qed

lemma batch_item_map2:
  assumes "wf_array S" "shape S = 2 # k # sh" "wf_array D" "shape D = 2 # k # sh" "i < k"
  shows "batch_item k sh i \<lparr>shape = 2 # k # sh, entries = map2 f (entries S) (entries D)\<rparr>
         = \<lparr>shape = 2 # sh,
            entries = map2 f (entries (batch_item k sh i S)) (entries (batch_item k sh i D))\<rparr>"
proof -
  let ?d = "prod_list sh"
  have lS: "length (entries S) = 2 * (k * ?d)" using assms(1,2) by (rule wf_batch_state_length)
  have lD: "length (entries D) = 2 * (k * ?d)" using assms(3,4) by (rule wf_batch_state_length)
  have l1: "length (row ?d i (entries S)) = ?d"
    using batch_rows_bound(1)[OF assms(5) lS] by (rule length_row)
  have l2: "length (row ?d i (entries D)) = ?d"
    using batch_rows_bound(1)[OF assms(5) lD] by (rule length_row)
  show ?thesis
    using l1 l2 by (simp add: batch_item_def row_map2)
qed


lemma acts_pointwise_keeps_shape:
  assumes "acts_pointwise mt k sh"
  shows "force_keeps_shape (\<lambda>state t. force_unraveled_state mt state t) (2 # k # sh)"
  using assms
  unfolding acts_pointwise_def force_keeps_shape_def force_unraveled_state_def
  by blast

lemma add_scaled_same_shape:
  assumes "wf_array a" "wf_array d" "shape d = shape a"
  shows "add_arrays a (scale_array d c)
         = Inr \<lparr>shape = shape a, entries = map2 (\<lambda>x v. x + v * c) (entries a) (entries d)\<rparr>"
  using euler_step_same_shape[of "\<lambda>s t. Inr d" a 0 d c] assms
  by (simp add: euler_step_def bind_err_def)

lemma add_scaled_batch:
  assumes "wf_array S" "shape S = 2 # k # sh" "wf_array D" "shape D = 2 # k # sh" "i < k"
  shows "\<exists>S'. add_arrays S (scale_array D c) = Inr S'
           \<and> wf_array S' \<and> shape S' = 2 # k # sh
           \<and> add_arrays (batch_item k sh i S) (scale_array (batch_item k sh i D) c)
               = Inr (batch_item k sh i S')"
proof -
  let ?u = "\<lambda>x v. x + v * c"
  let ?S' = "\<lparr>shape = 2 # k # sh, entries = map2 ?u (entries S) (entries D)\<rparr>"
  have e1: "add_arrays S (scale_array D c) = Inr ?S'"
    using add_scaled_same_shape[OF assms(1,3), of c] assms(2,4) by simp
  have wfS': "wf_array ?S'"
    using assms(1-4) by (simp add: wf_array_def)
  have wI: "wf_array (batch_item k sh i S)" "shape (batch_item k sh i S) = 2 # sh"
    using wf_batch_item[OF assms(1,2,5)] by simp_all
  have wD: "wf_array (batch_item k sh i D)" "shape (batch_item k sh i D) = 2 # sh"
    using wf_batch_item[OF assms(3,4,5)] by simp_all
  have e2: "add_arrays (batch_item k sh i S) (scale_array (batch_item k sh i D) c)
              = Inr \<lparr>shape = 2 # sh,
                     entries = map2 ?u (entries (batch_item k sh i S))
                                 (entries (batch_item k sh i D))\<rparr>"
    using add_scaled_same_shape[OF wI(1) wD(1), of c] wI(2) wD(2) by simp
  have bi: "batch_item k sh i ?S'
         = \<lparr>shape = 2 # sh,
            entries = map2 ?u (entries (batch_item k sh i S)) (entries (batch_item k sh i D))\<rparr>"
    using assms by (rule batch_item_map2)
  show ?thesis
    using e1 wfS' e2 bi by (intro exI[of _ ?S']) simp
qed

lemma combine_batch:
  assumes "i < k"
    and "wf_array acc" "shape acc = 2 # k # sh"
    and "\<forall>D \<in> set ks. wf_array D \<and> shape D = 2 # k # sh"
  shows "\<exists>acc'. combine acc dt coeffs ks = Inr acc'
           \<and> wf_array acc' \<and> shape acc' = 2 # k # sh
           \<and> combine (batch_item k sh i acc) dt coeffs (map (batch_item k sh i) ks)
               = Inr (batch_item k sh i acc')"
  using assms(2-4)
proof (induction coeffs arbitrary: acc ks)
  case Nil
  then show ?case by simp
next
  case (Cons a as)
  show ?case
  proof (cases ks)
    case Nil
    then show ?thesis using Cons.prems by simp
  next
    case (Cons D ks')
    have D: "wf_array D" "shape D = 2 # k # sh"
      using Cons.prems(3) Cons by simp_all
    obtain acc1 where acc1: "add_arrays acc (scale_array D (a * dt)) = Inr acc1"
        "wf_array acc1" "shape acc1 = 2 # k # sh"
        "add_arrays (batch_item k sh i acc) (scale_array (batch_item k sh i D) (a * dt))
           = Inr (batch_item k sh i acc1)"
      using add_scaled_batch[OF Cons.prems(1,2) D assms(1), of "a * dt"] by blast
    have rest: "\<forall>D \<in> set ks'. wf_array D \<and> shape D = 2 # k # sh"
      using Cons.prems(3) Cons by simp
    obtain acc' where acc': "combine acc1 dt as ks' = Inr acc'"
        "wf_array acc'" "shape acc' = 2 # k # sh"
        "combine (batch_item k sh i acc1) dt as (map (batch_item k sh i) ks')
           = Inr (batch_item k sh i acc')"
      using Cons.IH[OF acc1(2,3) rest] by blast
    show ?thesis
      using acc1(1,4) acc' Cons by (intro exI[of _ acc']) (simp add: bind_err_def)
  qed
qed

lemma rk_stages_batch:
  assumes "acts_pointwise mt k sh" "i < k"
    and "wf_array S" "shape S = 2 # k # sh"
    and "\<forall>D \<in> set ks. wf_array D \<and> shape D = 2 # k # sh"
  shows "\<exists>ks'. rk_stages (\<lambda>state t. force_unraveled_state mt state t) S time dt rows ks
                  = Inr ks'
           \<and> (\<forall>D \<in> set ks'. wf_array D \<and> shape D = 2 # k # sh)
           \<and> rk_stages (\<lambda>state t. force_unraveled_state mt state t) (batch_item k sh i S)
                time dt rows (map (batch_item k sh i) ks)
                  = Inr (map (batch_item k sh i) ks')"
  using assms(5)
proof (induction rows arbitrary: ks)
  case Nil
  then show ?case by simp
next
  case (Cons row rows)
  let ?f = "\<lambda>state t. force_unraveled_state mt state t"
  obtain a c where row: "row = (a, c)" by (cases row)
  obtain arg where arg: "combine S dt a ks = Inr arg" "wf_array arg" "shape arg = 2 # k # sh"
      "combine (batch_item k sh i S) dt a (map (batch_item k sh i) ks)
         = Inr (batch_item k sh i arg)"
    using combine_batch[OF assms(2,3,4) Cons.prems, of dt a] by blast
  obtain D where D: "geodesic_equation mt arg (time + c * dt) = Inr D"
      "wf_array D" "shape D = 2 # k # sh"
      "geodesic_equation mt (batch_item k sh i arg) (time + c * dt)
         = Inr (batch_item k sh i D)"
    using assms(1,2) arg(2,3) unfolding acts_pointwise_def by blast
  have all: "\<forall>x \<in> set (ks @ [D]). wf_array x \<and> shape x = 2 # k # sh"
    using Cons.prems D(2,3) by simp
  obtain ks' where ks': "rk_stages ?f S time dt rows (ks @ [D]) = Inr ks'"
      "\<forall>x \<in> set ks'. wf_array x \<and> shape x = 2 # k # sh"
      "rk_stages ?f (batch_item k sh i S) time dt rows (map (batch_item k sh i) (ks @ [D]))
         = Inr (map (batch_item k sh i) ks')"
    using Cons.IH[OF all] by blast
  show ?case
    using arg(1,4) D(1,4) ks' row
    by (intro exI[of _ ks']) (simp add: bind_err_def force_unraveled_state_def)
qed

lemma runge_kutta_batch_step:
  assumes "acts_pointwise mt k sh" "wf_array S" "shape S = 2 # k # sh" "i < k"
  shows "\<exists>S'. runge_kutta_step tab (\<lambda>state t. force_unraveled_state mt state t) S t dt
                 = Inr S'
           \<and> wf_array S' \<and> shape S' = 2 # k # sh
           \<and> runge_kutta_step tab (\<lambda>state t. force_unraveled_state mt state t)
                (batch_item k sh i S) t dt
               = Inr (batch_item k sh i S')"
proof -
  let ?f = "\<lambda>state t. force_unraveled_state mt state t"
  have none: "\<forall>D \<in> set []. wf_array D \<and> shape D = 2 # k # sh" by simp
  obtain ks where ks: "rk_stages ?f S t dt (stage_rows tab) [] = Inr ks"
      "\<forall>D \<in> set ks. wf_array D \<and> shape D = 2 # k # sh"
      "rk_stages ?f (batch_item k sh i S) t dt (stage_rows tab) (map (batch_item k sh i) [])
         = Inr (map (batch_item k sh i) ks)"
    using rk_stages_batch[OF assms(1,4,2,3) none, of t dt "stage_rows tab"] by blast
  obtain S' where S': "combine S dt (weights tab) ks = Inr S'"
      "wf_array S'" "shape S' = 2 # k # sh"
      "combine (batch_item k sh i S) dt (weights tab) (map (batch_item k sh i) ks)
         = Inr (batch_item k sh i S')"
    using combine_batch[OF assms(4,2,3) ks(2), of dt "weights tab"] by blast
  show ?thesis
    using ks(1,3) S' by (intro exI[of _ S']) (simp add: runge_kutta_step_def bind_err_def)
qed

lemma integrate_loop_batch:
  assumes "acts_pointwise mt k sh" "i < k" "step_function g = runge_kutta_step tab"
    and "wf_array S" "shape S = 2 # k # sh"
  shows "\<exists>new. integrate_loop g (\<lambda>state t. force_unraveled_state mt state t) dt m j S statesB
                  = Inr (statesB @ new)
           \<and> integrate_loop g (\<lambda>state t. force_unraveled_state mt state t) dt m j
                (batch_item k sh i S) statesI
                  = Inr (statesI @ map (batch_item k sh i) new)
           \<and> length new = m
           \<and> (\<forall>x \<in> set new. shape x = 2 # k # sh \<and> wf_array x)"
  using assms(4,5)
proof (induction m arbitrary: j S statesB statesI)
  case 0
  then show ?case by simp
next
  case (Suc m)
  let ?f = "\<lambda>state t. force_unraveled_state mt state t"
  obtain S' where S': "runge_kutta_step tab ?f S (real j * dt) dt = Inr S'"
      "wf_array S'" "shape S' = 2 # k # sh"
      "runge_kutta_step tab ?f (batch_item k sh i S) (real j * dt) dt
         = Inr (batch_item k sh i S')"
    using runge_kutta_batch_step[OF assms(1) Suc.prems assms(2)] by blast
  obtain new where new:
      "integrate_loop g ?f dt m (Suc j) S' (statesB @ [S']) = Inr ((statesB @ [S']) @ new)"
      "integrate_loop g ?f dt m (Suc j) (batch_item k sh i S') (statesI @ [batch_item k sh i S'])
         = Inr ((statesI @ [batch_item k sh i S']) @ map (batch_item k sh i) new)"
      "length new = m" "\<forall>x \<in> set new. shape x = 2 # k # sh \<and> wf_array x"
    using Suc.IH[OF S'(2,3)] by blast
  have a: "integrate_loop g ?f dt (Suc m) j S statesB = Inr (statesB @ (S' # new))"
    using S'(1) new(1) by (simp add: step_def assms(3) bind_err_def)
  have b: "integrate_loop g ?f dt (Suc m) j (batch_item k sh i S) statesI
             = Inr (statesI @ map (batch_item k sh i) (S' # new))"
    using S'(4) new(2) by (simp add: step_def assms(3) bind_err_def)
  show ?case
    using a b new(3,4) S'(2,3) by (intro exI[of _ "S' # new"]) simp
qed

lemma integrate_result_of_loop:
  assumes "integrate_loop g force (case_option 1 id T / real_of_int (n_steps g))
             (nat (n_steps g)) 0 s0 [s0] = Inr states"
    and "states \<noteq> []"
    and "\<forall>x \<in> set states. shape x = sh"
    and "0 < n_steps g"
    and "step_type g = Some nm"
    and "FEVALS_PER_STEP m nm = Some c"
  shows "\<exists>r. GSIntegrator_integrate m g force s0 T
               = Inr (r, if save_result g then g\<lparr>result' := Some r\<rparr> else g)
            \<and> r ''y'' = Some (PyArray \<lparr>shape = length states # sh,
                                        entries = concat (map entries states)\<rparr>)"
proof -
  define E where "E = case_option 1 id T"
  let ?y = "\<lparr>shape = length states # sh, entries = concat (map entries states)\<rparr>"
  obtain ts where ts: "linspace 0 E (n_steps g + 1) = Inr ts"
    using assms(4) by (simp add: linspace_def)
  have fev: "get_n_fevals m g (n_steps g) = Inr (c * n_steps g)"
    using assms(5,6) by (simp add: get_n_fevals_def)
  have arr: "gs_array states = Inr ?y"
    using assms(2,3) by (rule gs_array_same_shape)
  let ?r = "[''t'' \<mapsto> PyArray ts, ''y'' \<mapsto> PyArray ?y, ''nfev'' \<mapsto> PyInt (c * n_steps g),
             ''njev'' \<mapsto> PyInt 0, ''sucess'' \<mapsto> PyBool True]"
  have ns: "n_steps g \<noteq> 0" using assms(4) by simp
  have loop: "integrate_loop g force (E / real_of_int (n_steps g)) (nat (n_steps g)) 0 s0 [s0]
                = Inr states"
    using assms(1) by (simp only: E_def)
  have run: "GSIntegrator_integrate m g force s0 T
             = Inr (?r, if save_result g then g\<lparr>result' := Some ?r\<rparr> else g)"
    unfolding GSIntegrator_integrate_def Let_def E_def[symmetric]
    by (simp only: ns if_False loop ts fev arr bind_err_def sum.case)
  have ry: "?r ''y'' = Some (PyArray ?y)" by simp
  show ?thesis using run ry by (intro exI[of _ ?r]) simp
qed

lemma solve_structured:
  assumes "integrator solver = GS g"
    and "state_is_raveled g = False" "tfirst g = False"
    and "broadcast_to base_point (shape tangent_vec) = Inr bp"
    and "GSIntegrator_integrate (integrator_module_of env) g
           (\<lambda>state t. force_unraveled_state mt state t)
           \<lparr>shape = 2 # shape tangent_vec, entries = entries bp @ entries tangent_vec\<rparr> None
         = Inr (r, if save_result g then g\<lparr>result' := Some r\<rparr> else g)"
    and "r ''y'' = Some (PyArray \<lparr>shape = length states # sh,
                                  entries = concat (map entries states)\<rparr>)"
    and "states \<noteq> []"
    and "\<forall>x \<in> set states. shape x = sh \<and> wf_array x"
    and "getitem (last states) 0 = Inr pt"
  shows "\<exists>solver'. solve env solver mt tangent_vec base_point = Inr (pt, solver')"
proof -
  let ?s0 = "\<lparr>shape = 2 # shape tangent_vec, entries = entries bp @ entries tangent_vec\<rparr>"
  let ?g' = "if save_result g then g\<lparr>result' := Some r\<rparr> else g"
  let ?ys = "\<lparr>shape = length states # sh, entries = concat (map entries states)\<rparr>"
  have st: "stack [bp, tangent_vec] = Inr ?s0"
    using broadcast_to_shape[OF assms(4)] by (rule stack_pair)
  have gf: "get_force solver mt = State_first (\<lambda>state t. force_unraveled_state mt state t)"
    using assms(1,2,3) by (simp add: get_force_def Let_def)
  have run: "integrator_integrate env (integrator solver) (get_force solver mt) ?s0 None
               = Inr (r, GS ?g')"
    using assms(1,5) gf by (simp add: bind_err_def)
  have last: "getitem ?ys (- 1) = Inr (last states)"
    using assms(8,7) by (rule getitem_stacked_last)
  have flag: "\<not> integrator_state_is_raveled (GS ?g')"
    using assms(2) by simp
  have sr: "simplify_result (solver\<lparr>integrator := GS ?g'\<rparr>) r mt = Inr pt"
    using assms(6,9) last flag
    by (simp add: simplify_result_def getattr_result_def bind_err_def)
  have "solve env solver mt tangent_vec base_point = Inr (pt, solver\<lparr>integrator := GS ?g'\<rparr>)"
    unfolding solve_def Let_def
    using assms(4) st run sr by (simp add: bind_err_def)
  then show ?thesis by blast
qed

lemma broadcast_to_batch:
  assumes "wf_array p"
  shows "broadcast_to p (k # shape p)
         = Inr \<lparr>shape = k # shape p, entries = concat (replicate k (entries p))\<rparr>"
proof -
  let ?sh = "shape p"
  have len: "length (entries p) = prod_list ?sh" using assms by (simp add: wf_array_def)
  have be: "broadcast_entries ?sh ?sh (entries p) = entries p"
    using len by (rule broadcast_entries_same)
  have r0: "row (prod_list ?sh) 0 (entries p) = entries p"
    using len by (simp add: row_def)
  have "broadcast_entries (Suc 0 # ?sh) (k # ?sh) (entries p) = concat (replicate k (entries p))"
  proof (cases "k = Suc 0")
    case True
    then show ?thesis using be r0 by simp
  next
    case False
    then show ?thesis using be by simp
  qed
  moreover have "list_all2 (\<lambda>x t. x = t \<or> x = Suc 0) ?sh ?sh"
    by (simp add: list_all2_same)
  ultimately show ?thesis
    by (simp add: broadcast_to_def pad_shape_def)
qed


lemma length_concat_replicate: "length (concat (replicate k xs)) = k * length xs"
  by (induction k) simp_all

lemma row_replicate:
  "Suc i * d \<le> m \<Longrightarrow> row d i (replicate m x) = replicate d x"
proof -
  assume a: "Suc i * d \<le> m"
  then have "d \<le> m - i * d" by simp
  then show ?thesis by (simp add: row_def min_def)
qed

lemma flat_metric_acts_pointwise: "acts_pointwise (flat_metric n) k sh"
  unfolding acts_pointwise_def
proof (intro allI impI)
  fix S t assume a: "wf_array S \<and> shape S = 2 # k # sh"
  let ?d = "prod_list sh"
  let ?kd = "k * ?d"
  let ?V = "row ?kd 1 (entries S)"
  let ?D = "\<lparr>shape = 2 # k # sh, entries = ?V @ replicate ?kd 0\<rparr>"
  have lS: "length (entries S) = 2 * ?kd" using a by (simp add: wf_array_def)
  have lV: "length ?V = ?kd" using lS by (simp add: row_def)
  have g0: "getitem S 0 = Inr \<lparr>shape = k # sh, entries = row ?kd 0 (entries S)\<rparr>"
    using a by (simp add: getitem_def)
  have g1: "getitem S 1 = Inr \<lparr>shape = k # sh, entries = ?V\<rparr>"
    using a by (simp add: getitem_def)
  have st: "stack [\<lparr>shape = k # sh, entries = ?V\<rparr>, zeros (k # sh)] = Inr ?D"
    by (simp add: stack_def zeros_def)
  have geo: "geodesic_equation (flat_metric n) S t = Inr ?D"
    using g0 g1 st by (simp add: flat_metric_def bind_err_def)
  have wfD: "wf_array ?D" using lV by (simp add: wf_array_def)
  have items: "\<forall>i<k. geodesic_equation (flat_metric n) (batch_item k sh i S) t
                        = Inr (batch_item k sh i ?D)"
  proof (intro allI impI)
    fix i assume i: "i < k"
    let ?A = "row ?d i (entries S)"
    let ?B = "row ?d (k + i) (entries S)"
    have lA: "length ?A = ?d"
      using batch_rows_bound(1)[OF i lS] by (rule length_row)
    have lB: "length ?B = ?d"
      using batch_rows_bound(2)[OF i lS] by (rule length_row)
    have h0: "getitem (batch_item k sh i S) 0 = Inr \<lparr>shape = sh, entries = ?A\<rparr>"
      using lA by (simp add: getitem_def batch_item_def row_def)
    have h1: "getitem (batch_item k sh i S) 1 = Inr \<lparr>shape = sh, entries = ?B\<rparr>"
      using lA lB by (simp add: getitem_def batch_item_def row_def)
    have hs: "stack [\<lparr>shape = sh, entries = ?B\<rparr>, zeros sh]
                = Inr \<lparr>shape = 2 # sh, entries = ?B @ replicate ?d 0\<rparr>"
      by (simp add: stack_def zeros_def)
    have lhs: "geodesic_equation (flat_metric n) (batch_item k sh i S) t
                 = Inr \<lparr>shape = 2 # sh, entries = ?B @ replicate ?d 0\<rparr>"
      using h0 h1 hs by (simp add: flat_metric_def bind_err_def)
    have bound: "Suc i * ?d \<le> ?kd" using i by (rule suc_mult_le)
    have "row ?d i (?V @ replicate ?kd 0) = row ?d i ?V"
      using bound lV by (intro row_append_left) simp
    also have "\<dots> = row ?d i (drop ?kd (entries S))"
      using bound by (simp add: row_def take_drop min_def)
    also have "\<dots> = ?B"
      by (simp add: row_def add_mult_distrib add.commute)
    finally have e1: "row ?d i (?V @ replicate ?kd 0) = ?B" .
    have "row ?d (k + i) (?V @ replicate ?kd 0) = row ?d i (replicate ?kd 0)"
      using lV by (rule row_append_right)
    also have "\<dots> = replicate ?d 0"
      using bound by (rule row_replicate)
    finally have e2: "row ?d (k + i) (?V @ replicate ?kd 0) = replicate ?d 0" .
    have "batch_item k sh i ?D = \<lparr>shape = 2 # sh, entries = ?B @ replicate ?d 0\<rparr>"
      using e1 e2 by (simp add: batch_item_def)
    then show "geodesic_equation (flat_metric n) (batch_item k sh i S) t
                 = Inr (batch_item k sh i ?D)"
      using lhs by simp
  qed
  show "\<exists>D. geodesic_equation (flat_metric n) S t = Inr D \<and> wf_array D
            \<and> shape D = 2 # k # sh
            \<and> (\<forall>i<k. geodesic_equation (flat_metric n) (batch_item k sh i S) t
                        = Inr (batch_item k sh i D))"
    using geo wfD items by (intro exI[of _ ?D]) simp
qed

text \<open>
  C8 (as stated, fails on the code). With the adapter of the adaptive solver the state is
  raveled, and the vector field \<open>_force_raveled_state\<close> cuts the flat state at \<open>dim\<close>: for
  a batch of two tangent vectors the position has \<open>dim\<close> entries and the velocity the
  other \<open>3 * dim\<close>, and stacking them raises \<open>ValueError\<close>. The call on the first tangent
  vector alone returns a point.
\<close>

theorem raveled_batch_counterexample:
  "getitem example_tangent_vecs 0 = Inr example_tangent_vec
   \<and> solve example_env adapter_solver (flat_metric 2) example_tangent_vec example_base_point
       = Inr (\<lparr>shape = [2], entries = [4, 6]\<rparr>, adapter_solver)
   \<and> solve example_env adapter_solver (flat_metric 2) example_tangent_vecs example_base_point
       = Inl ValueError"
  by (simp add: model_defs adapter_solver_def example_adapter_def flat_metric_def get_force_def
      solve_def force_raveled_state_def simplify_result_def example_base_point_def
      example_tangent_vec_def example_tangent_vecs_def Let_def
      numeral_2_eq_2 numeral_3_eq_3 upt_rec [of 0] upt_rec [of 1] upt_rec [of 2]
      upt_rec [of 3])

text \<open>
  C8 (amended). On a fixed-step integrator with a positive \<open>n_steps\<close> and a stepper
  registered in a registry of Runge-Kutta rules, for a metric whose geodesic equation is
  vectorised over the batch, a base point and \<open>k\<close> tangent vectors, \<open>solve\<close> returns \<open>k\<close>
  points, and the \<open>i\<close>-th point is the point \<open>solve\<close> returns for the \<open>i\<close>-th tangent
  vector alone.
\<close>

theorem structured_batch_agrees_with_single_calls:
  assumes "runge_kutta_registry (integrator_module_of env)"
    and "GSIntegrator_init (integrator_module_of env) n_arg st_arg sv = Inr g"
    and "step_type g \<noteq> None"
    and "0 < n_steps g"
    and "integrator solver = GS g"
    and "wf_array base_point"
    and "wf_array tangent_vecs"
    and "shape tangent_vecs = k # shape base_point"
    and "acts_pointwise mt k (shape base_point)"
    and "i < k"
  shows "\<exists>pts solver' tv pt solver''.
           solve env solver mt tangent_vecs base_point = Inr (pts, solver')
         \<and> shape pts = k # shape base_point
         \<and> getitem tangent_vecs (int i) = Inr tv
         \<and> solve env solver mt tv base_point = Inr (pt, solver'')
         \<and> getitem pts (int i) = Inr pt"
proof -
  let ?sh = "shape base_point"
  let ?d = "prod_list ?sh"
  let ?pe = "entries base_point"
  let ?te = "entries tangent_vecs"
  let ?f = "\<lambda>state t. force_unraveled_state mt state t"
  let ?bi = "batch_item k ?sh i"
  let ?dt = "case_option 1 id (None :: real option) / real_of_int (n_steps g)"
  obtain nm tab where g: "step_type g = Some nm" "step_function g = runge_kutta_step tab"
      "FEVALS_PER_STEP (integrator_module_of env) nm = Some (int (length (stage_rows tab)))"
    using init_registered_stepper(1)[OF assms(1,2,3)] by blast
  have fl: "state_is_raveled g = False" "tfirst g = False"
    using init_registered_stepper(2,3)[OF assms(1,2,3)] by simp_all
  have lp: "length ?pe = ?d" using assms(6) by (simp add: wf_array_def)
  have lt: "length ?te = k * ?d" using assms(7,8) by (simp add: wf_array_def)
  have lc: "length (concat (replicate k ?pe)) = k * ?d"
    by (simp add: length_concat_replicate lp)
  \<comment> \<open>the batched call\<close>
  let ?bpB = "\<lparr>shape = k # ?sh, entries = concat (replicate k ?pe)\<rparr>"
  let ?B0 = "\<lparr>shape = 2 # shape tangent_vecs, entries = entries ?bpB @ ?te\<rparr>"
  have bcB: "broadcast_to base_point (shape tangent_vecs) = Inr ?bpB"
    using broadcast_to_batch[OF assms(6), of k] by (simp only: assms(8))
  have shB0: "shape ?B0 = 2 # k # ?sh" by (simp add: assms(8))
  have wfB0: "wf_array ?B0" using lc lt by (simp add: wf_array_def assms(8))
  obtain new where new:
      "integrate_loop g ?f ?dt (nat (n_steps g)) 0 ?B0 [?B0] = Inr ([?B0] @ new)"
      "integrate_loop g ?f ?dt (nat (n_steps g)) 0 (?bi ?B0) [?bi ?B0]
         = Inr ([?bi ?B0] @ map ?bi new)"
      "\<forall>x \<in> set new. shape x = 2 # k # ?sh \<and> wf_array x"
    using integrate_loop_batch[OF assms(9,10) g(2) wfB0 shB0, of ?dt "nat (n_steps g)" 0 "[?B0]" "[?bi ?B0]"]
    by blast
  let ?statesB = "?B0 # new"
  let ?Bn = "last ?statesB"
  have allB: "\<forall>x \<in> set ?statesB. shape x = 2 # k # ?sh \<and> wf_array x"
    using new(3) wfB0 shB0 by simp
  have allB_sh: "\<forall>x \<in> set ?statesB. shape x = 2 # k # ?sh" using allB by blast
  have neB: "?statesB \<noteq> []" by simp
  have loopB: "integrate_loop g ?f ?dt (nat (n_steps g)) 0 ?B0 [?B0] = Inr ?statesB"
    using new(1) by simp
  obtain rB where rB:
      "GSIntegrator_integrate (integrator_module_of env) g ?f ?B0 None
         = Inr (rB, if save_result g then g\<lparr>result' := Some rB\<rparr> else g)"
      "rB ''y'' = Some (PyArray \<lparr>shape = length ?statesB # 2 # k # ?sh,
                                   entries = concat (map entries ?statesB)\<rparr>)"
    using integrate_result_of_loop[OF loopB neB allB_sh assms(4) g(1) g(3)] by blast
  have Bn: "wf_array ?Bn" "shape ?Bn = 2 # k # ?sh"
    using allB last_in_set[OF neB] by blast+
  have lBn: "length (entries ?Bn) = 2 * (k * ?d)"
    using Bn by (rule wf_batch_state_length)
  let ?pts = "\<lparr>shape = k # ?sh, entries = take (k * ?d) (entries ?Bn)\<rparr>"
  have ptsB: "getitem ?Bn 0 = Inr ?pts"
    using Bn(2) by (simp add: getitem_def row_def)
  obtain solverB where solveB:
      "solve env solver mt tangent_vecs base_point = Inr (?pts, solverB)"
    using solve_structured[OF assms(5) fl bcB rB(1) rB(2) neB allB ptsB] by blast
  \<comment> \<open>the call on the \<open>i\<close>-th tangent vector\<close>
  let ?tv = "\<lparr>shape = ?sh, entries = row ?d i ?te\<rparr>"
  have tv: "getitem tangent_vecs (int i) = Inr ?tv"
    using assms(8,10) by (simp add: getitem_def)
  have bcI: "broadcast_to base_point (shape ?tv) = Inr base_point"
    using broadcast_to_same[OF assms(6)] by simp
  let ?I0 = "\<lparr>shape = 2 # shape ?tv, entries = ?pe @ entries ?tv\<rparr>"
  have r1: "row ?d i (concat (replicate k ?pe) @ ?te) = ?pe"
  proof -
    have "Suc i * ?d \<le> length (concat (replicate k ?pe))"
      using suc_mult_le[OF assms(10)] by (simp only: lc)
    then have "row ?d i (concat (replicate k ?pe) @ ?te) = row ?d i (concat (replicate k ?pe))"
      by (rule row_append_left)
    also have "\<dots> = ?pe"
      using row_replicate_concat[OF assms(10), of ?pe] by (simp only: lp)
    finally show ?thesis .
  qed
  have r2: "row ?d (k + i) (concat (replicate k ?pe) @ ?te) = row ?d i ?te"
    using lc by (rule row_append_right)
  have I0: "?I0 = ?bi ?B0"
    using r1 r2 by (simp add: batch_item_def)
  let ?statesI = "map ?bi ?statesB"
  have loopI: "integrate_loop g ?f ?dt (nat (n_steps g)) 0 ?I0 [?I0] = Inr ?statesI"
    unfolding I0 using new(2) by simp
  have allI: "\<forall>x \<in> set ?statesI. shape x = 2 # ?sh \<and> wf_array x"
  proof
    fix x assume "x \<in> set ?statesI"
    then obtain S where S: "S \<in> set ?statesB" "x = ?bi S" by auto
    then have "wf_array S" "shape S = 2 # k # ?sh" using allB by blast+
    then show "shape x = 2 # ?sh \<and> wf_array x"
      using wf_batch_item[of S k ?sh i] assms(10) S(2) by simp
  qed
  have allI_sh: "\<forall>x \<in> set ?statesI. shape x = 2 # ?sh" using allI by blast
  have neI: "?statesI \<noteq> []" by simp
  obtain rI where rI:
      "GSIntegrator_integrate (integrator_module_of env) g ?f ?I0 None
         = Inr (rI, if save_result g then g\<lparr>result' := Some rI\<rparr> else g)"
      "rI ''y'' = Some (PyArray \<lparr>shape = length ?statesI # 2 # ?sh,
                                   entries = concat (map entries ?statesI)\<rparr>)"
    using integrate_result_of_loop[OF loopI neI allI_sh assms(4) g(1) g(3)] by blast
  have lastI: "last ?statesI = ?bi ?Bn"
    using neB by (rule last_map)
  let ?pt = "\<lparr>shape = ?sh, entries = row ?d i (entries ?Bn)\<rparr>"
  have lrow: "length (row ?d i (entries ?Bn)) = ?d"
    using batch_rows_bound(1)[OF assms(10) lBn] by (rule length_row)
  have ptI: "getitem (last ?statesI) 0 = Inr ?pt"
    unfolding lastI using lrow by (simp add: getitem_def batch_item_def row_def)
  obtain solverI where solveI: "solve env solver mt ?tv base_point = Inr (?pt, solverI)"
    using solve_structured[OF assms(5) fl bcI rI(1) rI(2) neI allI ptI] by blast
  \<comment> \<open>the \<open>i\<close>-th point of the batch\<close>
  have "row ?d i (take (k * ?d) (entries ?Bn)) = row ?d i (entries ?Bn)"
    using suc_mult_le[OF assms(10)] by (rule row_take)
  then have item: "getitem ?pts (int i) = Inr ?pt"
    using assms(10) by (simp add: getitem_def)
  have shp: "shape ?pts = k # ?sh" by simp
  show ?thesis
    using solveB shp tv solveI item by blast
qed



theorem structured_batch_agrees_with_single_calls_witness:
  "runge_kutta_registry (integrator_module_of example_env)
   \<and> GSIntegrator_init (integrator_module_of example_env) (Some 2) (Some (Name ''rk4'')) None
       = Inr example_rk4_integrator
   \<and> step_type example_rk4_integrator \<noteq> None
   \<and> 0 < n_steps example_rk4_integrator
   \<and> integrator example_rk4_solver = GS example_rk4_integrator
   \<and> wf_array example_base_point
   \<and> wf_array example_tangent_vecs
   \<and> shape example_tangent_vecs = 2 # shape example_base_point
   \<and> acts_pointwise (flat_metric 2) 2 (shape example_base_point)
   \<and> (1::nat) < 2
   \<and> (\<exists>pts solver' tv pt solver''.
          solve example_env example_rk4_solver (flat_metric 2) example_tangent_vecs
            example_base_point = Inr (pts, solver')
        \<and> shape pts = 2 # shape example_base_point
        \<and> getitem example_tangent_vecs (int 1) = Inr tv
        \<and> solve example_env example_rk4_solver (flat_metric 2) tv example_base_point
            = Inr (pt, solver'')
        \<and> getitem pts (int 1) = Inr pt)"
proof -
  have h1: "runge_kutta_registry (integrator_module_of example_env)"
    using gs_integrator_is_runge_kutta_registry by (simp add: example_env_def)
  have h2: "GSIntegrator_init (integrator_module_of example_env) (Some 2) (Some (Name ''rk4''))
              None = Inr example_rk4_integrator"
    by (simp add: model_defs example_rk4_integrator_def)
  have h3: "step_type example_rk4_integrator \<noteq> None"
    by (simp add: example_rk4_integrator_def)
  have h4: "0 < n_steps example_rk4_integrator"
    by (simp add: example_rk4_integrator_def example_integrator_def)
  have h5: "integrator example_rk4_solver = GS example_rk4_integrator"
    by (simp add: example_rk4_solver_def)
  have h6: "wf_array example_base_point"
    by (simp add: example_base_point_def wf_array_def)
  have h7: "wf_array example_tangent_vecs"
    by (simp add: example_tangent_vecs_def wf_array_def)
  have h8: "shape example_tangent_vecs = 2 # shape example_base_point"
    by (simp add: example_tangent_vecs_def example_base_point_def)
  have h9: "acts_pointwise (flat_metric 2) 2 (shape example_base_point)"
    by (rule flat_metric_acts_pointwise)
  have h10: "(1::nat) < 2" by simp
  show ?thesis
    using h1 h2 h3 h4 h5 h6 h7 h8 h9 h10
      structured_batch_agrees_with_single_calls [OF h1 h2 h3 h4 h5 h6 h7 h8 h9 h10]
    by blast
qed

lemma example_batch_values:
  "solve example_env example_solver (flat_metric 2) example_tangent_vecs example_base_point
     = Inr (\<lparr>shape = [2, 2], entries = [4, 6, 6, 8]\<rparr>, example_solver)"
  by (simp add: model_defs example_solver_def flat_metric_def get_force_def solve_def
      force_unraveled_state_def simplify_result_def example_base_point_def
      example_tangent_vecs_def Let_def
      numeral_2_eq_2 numeral_3_eq_3 upt_rec [of 0] upt_rec [of 1] upt_rec [of 2]
      upt_rec [of 3])

end
